theory Spec2Isabelle
  imports Main
begin

section \<open>Data model\<close>

text \<open>
  The development follows \<^verbatim>\<open>vendor/knative.dev/eventing/pkg/apis/flows/v1/sequence_lifecycle.go\<close>:
  the status record of a Sequence and the methods that derive it from snapshots of the
  child channels and subscriptions.

  Go pointers that may be nil are \<open>option\<close> values; dereferencing nil is the error value
  \<open>NilPointerDereference\<close>. Every call of \<^verbatim>\<open>time.Now()\<close> made during one method call
  is the explicit argument \<open>now\<close> of that call. A message is the already formatted
  string (\<^verbatim>\<open>messageFormat\<close> with \<^verbatim>\<open>messageA\<close> applied).
\<close>

type_synonym Time = nat

type_synonym ConditionType = string

type_synonym ConditionStatus = string

definition ConditionTrue :: ConditionStatus where
  "ConditionTrue = ''True''"

definition ConditionFalse :: ConditionStatus where
  "ConditionFalse = ''False''"

definition ConditionUnknown :: ConditionStatus where
  "ConditionUnknown = ''Unknown''"

datatype panic = NilPointerDereference

text \<open>\<^verbatim>\<open>apis.Condition\<close>, with the fields the source file writes (lines 111-117).\<close>

record Condition =
  Type :: ConditionType
  Status :: ConditionStatus
  Reason :: string
  Message :: string
  LastTransitionTime :: Time

text \<open>\<^verbatim>\<open>corev1.ObjectReference\<close>, with the fields the source file writes (lines 97-102).\<close>

record ObjectReference =
  APIVersion :: string
  Kind :: string
  Name :: string
  Namespace :: string

text \<open>\<^verbatim>\<open>duckv1.Addressable\<close>: the URL pointer is the one field the source file reads or
  writes (lines 190-194).\<close>

record Addressable =
  URL :: "string option"

text \<open>Modelled from the spec: the child snapshot types \<^verbatim>\<open>messagingv1.Subscription\<close> and
  \<^verbatim>\<open>eventingduckv1.Channelable\<close> are declared outside the source file. A snapshot exposes
  apiVersion, kind, name, namespace and the conditions of its status; a channel snapshot
  also has an optional address in its status.\<close>

record Subscription =
  sAPIVersion :: string
  sKind :: string
  sName :: string
  sNamespace :: string
  sStatusConditions :: "Condition list"

record Channelable =
  cAPIVersion :: string
  cKind :: string
  cName :: string
  cNamespace :: string
  cStatusConditions :: "Condition list"
  cStatusAddress :: "Addressable option"

text \<open>The two per-stage entries. Both Go structs call their second field
  \<^verbatim>\<open>ReadyCondition\<close>; the record fields carry the struct's kind in front.\<close>

record SequenceSubscriptionStatus =
  Subscription :: ObjectReference
  SubscriptionReadyCondition :: Condition

record SequenceChannelStatus =
  Channel :: ObjectReference
  ChannelReadyCondition :: Condition

text \<open>Modelled from the spec: the struct \<^verbatim>\<open>SequenceStatus\<close> is declared outside the source
  file; these are the four parts of it that the source file reads and writes.\<close>

record SequenceStatus =
  Conditions :: "Condition list"
  SubscriptionStatuses :: "SequenceSubscriptionStatus list"
  ChannelStatuses :: "SequenceChannelStatus list"
  Address :: Addressable

text \<open>Go zero values: what \<^verbatim>\<open>make([]T, n)\<close> fills a fresh slice with, and what a struct
  literal leaves in a field it does not name.\<close>

definition zeroCondition :: Condition where
  "zeroCondition = \<lparr>Type = [], Status = [], Reason = [], Message = [], LastTransitionTime = 0\<rparr>"

definition zeroObjectReference :: ObjectReference where
  "zeroObjectReference = \<lparr>APIVersion = [], Kind = [], Name = [], Namespace = []\<rparr>"

definition zeroSequenceSubscriptionStatus :: SequenceSubscriptionStatus where
  "zeroSequenceSubscriptionStatus =
     \<lparr>Subscription = zeroObjectReference, SubscriptionReadyCondition = zeroCondition\<rparr>"

definition zeroSequenceChannelStatus :: SequenceChannelStatus where
  "zeroSequenceChannelStatus =
     \<lparr>Channel = zeroObjectReference, ChannelReadyCondition = zeroCondition\<rparr>"

definition zeroAddressable :: Addressable where
  "zeroAddressable = \<lparr>URL = None\<rparr>"

definition zeroSequenceStatus :: SequenceStatus where
  "zeroSequenceStatus =
     \<lparr>Conditions = [], SubscriptionStatuses = [], ChannelStatuses = [], Address = zeroAddressable\<rparr>"

section \<open>Condition types of a Sequence (lines 31-53)\<close>

text \<open>Modelled from the spec: the constant \<^verbatim>\<open>apis.ConditionReady\<close> is declared outside the
  source file; it is the condition type \<open>Ready\<close>.\<close>

definition ConditionReady :: ConditionType where
  "ConditionReady = ''Ready''"

definition SequenceConditionReady :: ConditionType where
  "SequenceConditionReady = ConditionReady"

definition SequenceConditionChannelsReady :: ConditionType where
  "SequenceConditionChannelsReady = ''ChannelsReady''"

definition SequenceConditionSubscriptionsReady :: ConditionType where
  "SequenceConditionSubscriptionsReady = ''SubscriptionsReady''"

definition SequenceConditionAddressable :: ConditionType where
  "SequenceConditionAddressable = ''Addressable''"

definition SequenceConditionOIDCIdentityCreated :: ConditionType where
  "SequenceConditionOIDCIdentityCreated = ''OIDCIdentityCreated''"

text \<open>Modelled from the spec: the constant \<^verbatim>\<open>messagingv1.SubscriptionConditionReady\<close> is
  declared outside the source file; it is the \<open>Ready\<close> condition of a subscription.\<close>

definition SubscriptionConditionReady :: ConditionType where
  "SubscriptionConditionReady = ConditionReady"

section \<open>The condition-set primitive\<close>

text \<open>The source file calls into the package \<^verbatim>\<open>knative.dev/pkg/apis\<close>, which is outside
  it: \<^verbatim>\<open>NewLivingConditionSet\<close>, \<^verbatim>\<open>Manage\<close>, the manager's \<^verbatim>\<open>GetCondition\<close>, \<^verbatim>\<open>IsHappy\<close>,
  \<^verbatim>\<open>InitializeConditions\<close>, \<^verbatim>\<open>MarkTrue\<close>, \<^verbatim>\<open>MarkTrueWithReason\<close>, \<^verbatim>\<open>MarkFalse\<close>,
  \<^verbatim>\<open>MarkUnknown\<close>, and \<^verbatim>\<open>IsTrue\<close> of a condition. The spec describes it as the bookkeeping
  of named tri-state conditions (set, get, mark) with a synthetic aggregate. Each
  definition of this section is modelled from that description.\<close>

text \<open>Modelled from the spec: the condition set of \<^verbatim>\<open>NewLivingConditionSet\<close> (outside the
  source file). It names the synthetic aggregate, \<open>Ready\<close>, and the tracked sub-conditions:
  the declared types other than the aggregate.\<close>

record ConditionSet =
  happy :: ConditionType
  dependents :: "ConditionType list"

definition NewLivingConditionSet :: "ConditionType list \<Rightarrow> ConditionSet" where
  "NewLivingConditionSet d =
     \<lparr>happy = ConditionReady, dependents = filter (\<lambda>t. t \<noteq> ConditionReady) d\<rparr>"

text \<open>Modelled from the spec: looking a condition up by its type in the ordered collection
  of conditions (the get of the primitive, outside the source file); nil when there is
  none.\<close>

fun findCondition :: "ConditionType \<Rightarrow> Condition list \<Rightarrow> Condition option" where
  "findCondition t [] = None"
| "findCondition t (c # cs) = (if Type c = t then Some c else findCondition t cs)"

text \<open>Modelled from the spec: \<^verbatim>\<open>IsTrue\<close> and \<^verbatim>\<open>IsFalse\<close> of a condition pointer (outside the
  source file): the condition is there and has that status.\<close>

definition IsTrue :: "Condition option \<Rightarrow> bool" where
  "IsTrue c = (case c of None \<Rightarrow> False | Some x \<Rightarrow> Status x = ConditionTrue)"

definition IsFalse :: "Condition option \<Rightarrow> bool" where
  "IsFalse c = (case c of None \<Rightarrow> False | Some x \<Rightarrow> Status x = ConditionFalse)"

text \<open>Modelled from the spec: the set of the primitive (outside the source file). It
  writes the condition of the given type, in place when the type is there and at the
  end otherwise. The spec names the field \<open>lastTransitionTime\<close> and says no more about it;
  the model reads it as the time of the last transition: the written condition is
  stamped with the clock reading, and a write that would change nothing but that time
  leaves the stored condition as it is. Where this reading would matter, the theorems
  below are stated up to the time stamps of the conditions.\<close>

fun setCondition :: "Time \<Rightarrow> Condition \<Rightarrow> Condition list \<Rightarrow> Condition list" where
  "setCondition now cond [] = [cond\<lparr>LastTransitionTime := now\<rparr>]"
| "setCondition now cond (c # cs) =
     (if Type c = Type cond
      then (if cond\<lparr>LastTransitionTime := LastTransitionTime c\<rparr> = c then c # cs
            else cond\<lparr>LastTransitionTime := now\<rparr> # cs)
      else c # setCondition now cond cs)"

text \<open>Modelled from the spec: the aggregate of the primitive (outside the source file), a
  pure conjunction of the tracked sub-conditions: \<open>True\<close> when all of them are \<open>True\<close>,
  otherwise \<open>False\<close> when one of them is \<open>False\<close>, otherwise \<open>Unknown\<close>.\<close>

definition aggregateStatus :: "ConditionSet \<Rightarrow> Condition list \<Rightarrow> ConditionStatus" where
  "aggregateStatus cset conds =
     (if list_all (\<lambda>t. IsTrue (findCondition t conds)) (dependents cset) then ConditionTrue
      else if list_ex (\<lambda>t. IsFalse (findCondition t conds)) (dependents cset) then ConditionFalse
      else ConditionUnknown)"

text \<open>Modelled from the spec: the recomputation of the aggregate condition by the
  primitive (outside the source file), done whenever a tracked sub-condition is marked.
  The spec fixes the status of the aggregate, the conjunction, and says nothing of its
  reason and message; the model leaves both empty. The theorems below speak of the
  status of the aggregate only.\<close>

definition recomputeHappiness :: "ConditionSet \<Rightarrow> Time \<Rightarrow> Condition list \<Rightarrow> Condition list" where
  "recomputeHappiness cset now conds =
     setCondition now
       \<lparr>Type = happy cset, Status = aggregateStatus cset conds, Reason = [], Message = [],
        LastTransitionTime = now\<rparr> conds"

text \<open>Modelled from the spec: a mark of the primitive (outside the source file), on the
  collection of conditions and on a status record. It sets the named condition; the
  aggregate is recomputed "whenever a tracked sub-condition changes", so the
  recomputation follows when the named condition is a tracked sub-condition. A mark of
  any other type, the aggregate's own among them, is a direct write: the named condition
  is set and nothing is recomputed.\<close>

definition markConditions :: "ConditionSet \<Rightarrow> Time \<Rightarrow> Condition \<Rightarrow> Condition list \<Rightarrow> Condition list" where
  "markConditions cset now cond conds =
     (if Type cond \<in> set (dependents cset)
      then recomputeHappiness cset now (setCondition now cond conds)
      else setCondition now cond conds)"

definition markCondition :: "ConditionSet \<Rightarrow> Time \<Rightarrow> Condition \<Rightarrow> SequenceStatus \<Rightarrow> SequenceStatus" where
  "markCondition cset now cond ss =
     ss\<lparr>Conditions := markConditions cset now cond (Conditions ss)\<rparr>"

text \<open>Modelled from the spec: \<^verbatim>\<open>Manage(ss).GetCondition\<close> and \<^verbatim>\<open>Manage(ss).IsHappy\<close> (outside
  the source file): the condition of the asked type or nil, and whether the aggregate
  condition is \<open>True\<close>.\<close>

definition Manage_GetCondition :: "ConditionSet \<Rightarrow> SequenceStatus \<Rightarrow> ConditionType \<Rightarrow> Condition option" where
  "Manage_GetCondition cset ss t = findCondition t (Conditions ss)"

definition Manage_IsHappy :: "ConditionSet \<Rightarrow> SequenceStatus \<Rightarrow> bool" where
  "Manage_IsHappy cset ss = IsTrue (Manage_GetCondition cset ss (happy cset))"

text \<open>Modelled from the spec: \<^verbatim>\<open>Manage(ss).MarkTrue\<close>, \<^verbatim>\<open>MarkTrueWithReason\<close>, \<^verbatim>\<open>MarkFalse\<close>
  and \<^verbatim>\<open>MarkUnknown\<close> (outside the source file): each marks the named condition with
  the status of its name and the caller's reason and message.\<close>

definition Manage_MarkTrue :: "ConditionSet \<Rightarrow> Time \<Rightarrow> ConditionType \<Rightarrow> SequenceStatus \<Rightarrow> SequenceStatus" where
  "Manage_MarkTrue cset now t ss =
     markCondition cset now
       \<lparr>Type = t, Status = ConditionTrue, Reason = [], Message = [], LastTransitionTime = now\<rparr> ss"

definition Manage_MarkTrueWithReason ::
  "ConditionSet \<Rightarrow> Time \<Rightarrow> ConditionType \<Rightarrow> string \<Rightarrow> string \<Rightarrow> SequenceStatus \<Rightarrow> SequenceStatus" where
  "Manage_MarkTrueWithReason cset now t reason message ss =
     markCondition cset now
       \<lparr>Type = t, Status = ConditionTrue, Reason = reason, Message = message,
        LastTransitionTime = now\<rparr> ss"

definition Manage_MarkFalse ::
  "ConditionSet \<Rightarrow> Time \<Rightarrow> ConditionType \<Rightarrow> string \<Rightarrow> string \<Rightarrow> SequenceStatus \<Rightarrow> SequenceStatus" where
  "Manage_MarkFalse cset now t reason message ss =
     markCondition cset now
       \<lparr>Type = t, Status = ConditionFalse, Reason = reason, Message = message,
        LastTransitionTime = now\<rparr> ss"

definition Manage_MarkUnknown ::
  "ConditionSet \<Rightarrow> Time \<Rightarrow> ConditionType \<Rightarrow> string \<Rightarrow> string \<Rightarrow> SequenceStatus \<Rightarrow> SequenceStatus" where
  "Manage_MarkUnknown cset now t reason message ss =
     markCondition cset now
       \<lparr>Type = t, Status = ConditionUnknown, Reason = reason, Message = message,
        LastTransitionTime = now\<rparr> ss"

text \<open>Modelled from the spec: \<^verbatim>\<open>Manage(ss).InitializeConditions\<close> (outside the source file):
  it sets every tracked condition type that is not yet present to \<open>Unknown\<close> and leaves
  the conditions that are present as they are.\<close>

fun initializeMissing :: "Time \<Rightarrow> ConditionType list \<Rightarrow> Condition list \<Rightarrow> Condition list" where
  "initializeMissing now [] conds = conds"
| "initializeMissing now (t # ts) conds =
     initializeMissing now ts
       (case findCondition t conds of
          Some c \<Rightarrow> conds
        | None \<Rightarrow> conds @ [\<lparr>Type = t, Status = ConditionUnknown, Reason = [], Message = [],
                           LastTransitionTime = now\<rparr>])"

definition Manage_InitializeConditions :: "ConditionSet \<Rightarrow> Time \<Rightarrow> SequenceStatus \<Rightarrow> SequenceStatus" where
  "Manage_InitializeConditions cset now ss =
     ss\<lparr>Conditions := initializeMissing now (happy cset # dependents cset) (Conditions ss)\<rparr>"

text \<open>Modelled from the spec: \<^verbatim>\<open>GetCondition\<close> of a child snapshot's status (outside the
  source file): the snapshot's condition of the asked type, or nil.\<close>

definition Subscription_GetCondition :: "Subscription \<Rightarrow> ConditionType \<Rightarrow> Condition option" where
  "Subscription_GetCondition s t = findCondition t (sStatusConditions s)"

definition Channelable_GetCondition :: "Channelable \<Rightarrow> ConditionType \<Rightarrow> Condition option" where
  "Channelable_GetCondition c t = findCondition t (cStatusConditions c)"

section \<open>The methods of the source file\<close>

text \<open>Line 31.\<close>

definition sCondSet :: ConditionSet where
  "sCondSet =
     NewLivingConditionSet
       [SequenceConditionReady, SequenceConditionChannelsReady,
        SequenceConditionSubscriptionsReady, SequenceConditionAddressable,
        SequenceConditionOIDCIdentityCreated]"

text \<open>Lines 70-83.\<close>

definition GetCondition :: "SequenceStatus \<Rightarrow> ConditionType \<Rightarrow> Condition option" where
  "GetCondition ss t = Manage_GetCondition sCondSet ss t"

definition IsReady :: "SequenceStatus \<Rightarrow> bool" where
  "IsReady ss = Manage_IsHappy sCondSet ss"

definition InitializeConditions :: "Time \<Rightarrow> SequenceStatus \<Rightarrow> SequenceStatus" where
  "InitializeConditions now ss = Manage_InitializeConditions sCondSet now ss"

text \<open>Lines 177-187.\<close>

definition MarkChannelsNotReady :: "Time \<Rightarrow> string \<Rightarrow> string \<Rightarrow> SequenceStatus \<Rightarrow> SequenceStatus" where
  "MarkChannelsNotReady now reason message ss =
     Manage_MarkUnknown sCondSet now SequenceConditionChannelsReady reason message ss"

definition MarkSubscriptionsNotReady :: "Time \<Rightarrow> string \<Rightarrow> string \<Rightarrow> SequenceStatus \<Rightarrow> SequenceStatus" where
  "MarkSubscriptionsNotReady now reason message ss =
     Manage_MarkUnknown sCondSet now SequenceConditionSubscriptionsReady reason message ss"

definition MarkAddressableNotReady :: "Time \<Rightarrow> string \<Rightarrow> string \<Rightarrow> SequenceStatus \<Rightarrow> SequenceStatus" where
  "MarkAddressableNotReady now reason message ss =
     Manage_MarkUnknown sCondSet now SequenceConditionAddressable reason message ss"

text \<open>Lines 189-197.\<close>

definition setAddress :: "Time \<Rightarrow> Addressable option \<Rightarrow> SequenceStatus \<Rightarrow> SequenceStatus" where
  "setAddress now address ss =
     (let addressOrURLIsNil = (case address of None \<Rightarrow> True | Some a \<Rightarrow> URL a = None)
      in if addressOrURLIsNil
         then Manage_MarkUnknown sCondSet now SequenceConditionAddressable
                ''emptyAddress'' ''addressable is nil'' (ss\<lparr>Address := zeroAddressable\<rparr>)
         else Manage_MarkTrue sCondSet now SequenceConditionAddressable
                (ss\<lparr>Address := \<lparr>URL = (case address of None \<Rightarrow> None | Some a \<Rightarrow> URL a)\<rparr>\<rparr>))"

text \<open>Lines 199-217.\<close>

definition MarkOIDCIdentityCreatedSucceeded :: "Time \<Rightarrow> SequenceStatus \<Rightarrow> SequenceStatus" where
  "MarkOIDCIdentityCreatedSucceeded now ss =
     Manage_MarkTrue sCondSet now SequenceConditionOIDCIdentityCreated ss"

definition MarkOIDCIdentityCreatedSucceededWithReason ::
  "Time \<Rightarrow> string \<Rightarrow> string \<Rightarrow> SequenceStatus \<Rightarrow> SequenceStatus" where
  "MarkOIDCIdentityCreatedSucceededWithReason now reason message ss =
     Manage_MarkTrueWithReason sCondSet now SequenceConditionOIDCIdentityCreated reason message ss"

definition MarkOIDCIdentityCreatedFailed ::
  "Time \<Rightarrow> string \<Rightarrow> string \<Rightarrow> SequenceStatus \<Rightarrow> SequenceStatus" where
  "MarkOIDCIdentityCreatedFailed now reason message ss =
     Manage_MarkFalse sCondSet now SequenceConditionOIDCIdentityCreated reason message ss"

definition MarkOIDCIdentityCreatedUnknown ::
  "Time \<Rightarrow> string \<Rightarrow> string \<Rightarrow> SequenceStatus \<Rightarrow> SequenceStatus" where
  "MarkOIDCIdentityCreatedUnknown now reason message ss =
     Manage_MarkUnknown sCondSet now SequenceConditionOIDCIdentityCreated reason message ss"

text \<open>Lines 95-121: the loop over the subscriptions, from index \<open>i\<close> on. The state of the
  loop is the status record and \<^verbatim>\<open>allReady\<close>. A nil entry panics at \<^verbatim>\<open>s.APIVersion\<close>.\<close>

fun subscriptionsLoop ::
  "Time \<Rightarrow> nat \<Rightarrow> Subscription option list \<Rightarrow> SequenceStatus \<times> bool \<Rightarrow> panic + SequenceStatus \<times> bool"
where
  "subscriptionsLoop now i [] (ss, allReady) = Inr (ss, allReady)"
| "subscriptionsLoop now i (None # rest) (ss, allReady) = Inl NilPointerDereference"
| "subscriptionsLoop now i (Some s # rest) (ss, allReady) =
     (let ss1 = ss\<lparr>SubscriptionStatuses := (SubscriptionStatuses ss)
                  [i := \<lparr>Subscription =
                           \<lparr>APIVersion = sAPIVersion s, Kind = sKind s, Name = sName s,
                            Namespace = sNamespace s\<rparr>,
                         SubscriptionReadyCondition = zeroCondition\<rparr>]\<rparr>
      in case Subscription_GetCondition s SubscriptionConditionReady of
           Some readyCondition \<Rightarrow>
             subscriptionsLoop now (i + 1) rest
               (ss1\<lparr>SubscriptionStatuses := (SubscriptionStatuses ss1)
                      [i := (SubscriptionStatuses ss1 ! i)
                              \<lparr>SubscriptionReadyCondition := readyCondition\<rparr>]\<rparr>,
                if \<not> IsTrue (Some readyCondition) then False else allReady)
         | None \<Rightarrow>
             subscriptionsLoop now (i + 1) rest
               (ss1\<lparr>SubscriptionStatuses := (SubscriptionStatuses ss1)
                      [i := (SubscriptionStatuses ss1 ! i)
                              \<lparr>SubscriptionReadyCondition :=
                                 \<lparr>Type = ConditionReady, Status = ConditionUnknown,
                                  Reason = ''NoReady'',
                                  Message = ''Subscription does not have Ready condition'',
                                  LastTransitionTime = now\<rparr>\<rparr>]\<rparr>,
                False))"

text \<open>Lines 87-127.\<close>

definition PropagateSubscriptionStatuses ::
  "Time \<Rightarrow> Subscription option list \<Rightarrow> SequenceStatus \<Rightarrow> panic + SequenceStatus" where
  "PropagateSubscriptionStatuses now subscriptions ss =
     (let ss0 = ss\<lparr>SubscriptionStatuses :=
                    replicate (length subscriptions) zeroSequenceSubscriptionStatus\<rparr>;
          allReady = (if length subscriptions = 0 then False else True)
      in case subscriptionsLoop now 0 subscriptions (ss0, allReady) of
           Inl p \<Rightarrow> Inl p
         | Inr (ss1, allReady1) \<Rightarrow>
             Inr (if allReady1
                  then Manage_MarkTrue sCondSet now SequenceConditionSubscriptionsReady ss1
                  else MarkSubscriptionsNotReady now ''SubscriptionsNotReady''
                         ''Subscriptions are not ready yet, or there are none'' ss1))"

text \<open>Lines 139-169: the loop over the channels, from index \<open>i\<close> on. A nil entry panics
  at \<^verbatim>\<open>c.Status\<close> (index 0) or \<^verbatim>\<open>c.APIVersion\<close>.\<close>

fun channelsLoop ::
  "Time \<Rightarrow> nat \<Rightarrow> Channelable option list \<Rightarrow> SequenceStatus \<times> bool \<Rightarrow> panic + SequenceStatus \<times> bool"
where
  "channelsLoop now i [] (ss, allReady) = Inr (ss, allReady)"
| "channelsLoop now i (None # rest) (ss, allReady) = Inl NilPointerDereference"
| "channelsLoop now i (Some c # rest) (ss, allReady) =
     (let ssA = (if i = 0 then setAddress now (cStatusAddress c) ss else ss);
          ss1 = ssA\<lparr>ChannelStatuses := (ChannelStatuses ssA)
                  [i := \<lparr>Channel =
                           \<lparr>APIVersion = cAPIVersion c, Kind = cKind c, Name = cName c,
                            Namespace = cNamespace c\<rparr>,
                         ChannelReadyCondition = zeroCondition\<rparr>]\<rparr>
      in case Channelable_GetCondition c ConditionReady of
           Some ready \<Rightarrow>
             channelsLoop now (i + 1) rest
               (ss1\<lparr>ChannelStatuses := (ChannelStatuses ss1)
                      [i := (ChannelStatuses ss1 ! i)\<lparr>ChannelReadyCondition := ready\<rparr>]\<rparr>,
                if \<not> IsTrue (Some ready) then False else allReady)
         | None \<Rightarrow>
             channelsLoop now (i + 1) rest
               (ss1\<lparr>ChannelStatuses := (ChannelStatuses ss1)
                      [i := (ChannelStatuses ss1 ! i)
                              \<lparr>ChannelReadyCondition :=
                                 \<lparr>Type = ConditionReady, Status = ConditionUnknown,
                                  Reason = ''NoReady'',
                                  Message = ''Channel does not have Ready condition'',
                                  LastTransitionTime = now\<rparr>\<rparr>]\<rparr>,
                False))"

text \<open>Lines 131-175.\<close>

definition PropagateChannelStatuses ::
  "Time \<Rightarrow> Channelable option list \<Rightarrow> SequenceStatus \<Rightarrow> panic + SequenceStatus" where
  "PropagateChannelStatuses now channels ss =
     (let ss0 = ss\<lparr>ChannelStatuses :=
                    replicate (length channels) zeroSequenceChannelStatus\<rparr>;
          allReady = (if length channels = 0 then False else True)
      in case channelsLoop now 0 channels (ss0, allReady) of
           Inl p \<Rightarrow> Inl p
         | Inr (ss1, allReady1) \<Rightarrow>
             Inr (if allReady1
                  then Manage_MarkTrue sCondSet now SequenceConditionChannelsReady ss1
                  else MarkChannelsNotReady now ''ChannelsNotReady''
                         ''Channels are not ready yet, or there are none'' ss1))"

section \<open>The operations of the file, as calls\<close>

text \<open>The methods of the source file that change a status record (\<open>setAddress\<close> among
  them, which only the package itself can call), and a run of such calls, each with the
  clock reading of its moment. A run stops at the first panic.\<close>

datatype operation =
    OpInitializeConditions
  | OpPropagateSubscriptionStatuses "Subscription option list"
  | OpPropagateChannelStatuses "Channelable option list"
  | OpMarkChannelsNotReady string string
  | OpMarkSubscriptionsNotReady string string
  | OpMarkAddressableNotReady string string
  | OpSetAddress "Addressable option"
  | OpMarkOIDCIdentityCreatedSucceeded
  | OpMarkOIDCIdentityCreatedSucceededWithReason string string
  | OpMarkOIDCIdentityCreatedFailed string string
  | OpMarkOIDCIdentityCreatedUnknown string string

fun applyOperation :: "Time \<Rightarrow> operation \<Rightarrow> SequenceStatus \<Rightarrow> panic + SequenceStatus" where
  "applyOperation now OpInitializeConditions ss = Inr (InitializeConditions now ss)"
| "applyOperation now (OpPropagateSubscriptionStatuses subscriptions) ss =
     PropagateSubscriptionStatuses now subscriptions ss"
| "applyOperation now (OpPropagateChannelStatuses channels) ss =
     PropagateChannelStatuses now channels ss"
| "applyOperation now (OpMarkChannelsNotReady reason message) ss =
     Inr (MarkChannelsNotReady now reason message ss)"
| "applyOperation now (OpMarkSubscriptionsNotReady reason message) ss =
     Inr (MarkSubscriptionsNotReady now reason message ss)"
| "applyOperation now (OpMarkAddressableNotReady reason message) ss =
     Inr (MarkAddressableNotReady now reason message ss)"
| "applyOperation now (OpSetAddress address) ss = Inr (setAddress now address ss)"
| "applyOperation now OpMarkOIDCIdentityCreatedSucceeded ss =
     Inr (MarkOIDCIdentityCreatedSucceeded now ss)"
| "applyOperation now (OpMarkOIDCIdentityCreatedSucceededWithReason reason message) ss =
     Inr (MarkOIDCIdentityCreatedSucceededWithReason now reason message ss)"
| "applyOperation now (OpMarkOIDCIdentityCreatedFailed reason message) ss =
     Inr (MarkOIDCIdentityCreatedFailed now reason message ss)"
| "applyOperation now (OpMarkOIDCIdentityCreatedUnknown reason message) ss =
     Inr (MarkOIDCIdentityCreatedUnknown now reason message ss)"

fun runOperations :: "(Time \<times> operation) list \<Rightarrow> SequenceStatus \<Rightarrow> panic + SequenceStatus" where
  "runOperations [] ss = Inr ss"
| "runOperations ((now, op) # ops) ss =
     (case applyOperation now op ss of Inl p \<Rightarrow> Inl p | Inr ss1 \<Rightarrow> runOperations ops ss1)"

text \<open>Whether a call reaches \<open>setAddress\<close>: the call of \<open>setAddress\<close> itself, and
  \<open>PropagateChannelStatuses\<close> at index 0 of a list that has one (line 142).\<close>

fun reachesSetAddress :: "operation \<Rightarrow> bool" where
  "reachesSetAddress (OpSetAddress address) = True"
| "reachesSetAddress (OpPropagateChannelStatuses channels) = (channels \<noteq> [])"
| "reachesSetAddress other = False"

text \<open>Whether a call can write the \<open>Addressable\<close> condition: a call that reaches
  \<open>setAddress\<close>, \<open>MarkAddressableNotReady\<close> (line 186), and \<open>InitializeConditions\<close>, which
  seeds a tracked condition that is not there yet.\<close>

fun writesAddressableCondition :: "operation \<Rightarrow> bool" where
  "writesAddressableCondition (OpMarkAddressableNotReady reason message) = True"
| "writesAddressableCondition OpInitializeConditions = True"
| "writesAddressableCondition other = reachesSetAddress other"

section \<open>What the propagation stores and decides\<close>

text \<open>The object reference and the entry written for one snapshot (lines 96-119 and
  145-168), and whether a snapshot carries a \<open>Ready\<close> condition with status \<open>True\<close>.\<close>

definition subscriptionRef :: "Subscription \<Rightarrow> ObjectReference" where
  "subscriptionRef s =
     \<lparr>APIVersion = sAPIVersion s, Kind = sKind s, Name = sName s, Namespace = sNamespace s\<rparr>"

definition channelRef :: "Channelable \<Rightarrow> ObjectReference" where
  "channelRef c =
     \<lparr>APIVersion = cAPIVersion c, Kind = cKind c, Name = cName c, Namespace = cNamespace c\<rparr>"

definition noReadyCondition :: "Time \<Rightarrow> string \<Rightarrow> Condition" where
  "noReadyCondition now message =
     \<lparr>Type = ConditionReady, Status = ConditionUnknown, Reason = ''NoReady'',
      Message = message, LastTransitionTime = now\<rparr>"

definition subscriptionEntry :: "Time \<Rightarrow> Subscription \<Rightarrow> SequenceSubscriptionStatus" where
  "subscriptionEntry now s =
     \<lparr>Subscription = subscriptionRef s,
      SubscriptionReadyCondition =
        (case Subscription_GetCondition s SubscriptionConditionReady of
           Some readyCondition \<Rightarrow> readyCondition
         | None \<Rightarrow> noReadyCondition now ''Subscription does not have Ready condition'')\<rparr>"

definition channelEntry :: "Time \<Rightarrow> Channelable \<Rightarrow> SequenceChannelStatus" where
  "channelEntry now c =
     \<lparr>Channel = channelRef c,
      ChannelReadyCondition =
        (case Channelable_GetCondition c ConditionReady of
           Some ready \<Rightarrow> ready
         | None \<Rightarrow> noReadyCondition now ''Channel does not have Ready condition'')\<rparr>"

definition subscriptionReady :: "Subscription \<Rightarrow> bool" where
  "subscriptionReady s = IsTrue (Subscription_GetCondition s SubscriptionConditionReady)"

definition channelReady :: "Channelable \<Rightarrow> bool" where
  "channelReady c = IsTrue (Channelable_GetCondition c ConditionReady)"

definition subscriptionReadyFalse :: "Subscription \<Rightarrow> bool" where
  "subscriptionReadyFalse s = IsFalse (Subscription_GetCondition s SubscriptionConditionReady)"

definition channelReadyFalse :: "Channelable \<Rightarrow> bool" where
  "channelReadyFalse c = IsFalse (Channelable_GetCondition c ConditionReady)"

text \<open>The four tracked sub-conditions of \<open>Ready\<close>.\<close>

definition subConditions :: "ConditionType list" where
  "subConditions =
     [SequenceConditionChannelsReady, SequenceConditionSubscriptionsReady,
      SequenceConditionAddressable, SequenceConditionOIDCIdentityCreated]"

definition statusOf :: "Condition option \<Rightarrow> ConditionStatus option" where
  "statusOf c = map_option Status c"

definition reasonOf :: "Condition option \<Rightarrow> string option" where
  "reasonOf c = map_option Reason c"

text \<open>The stored aggregate is the recomputed one: there is a condition of the aggregate's
  type, and its status is the conjunction of the tracked sub-conditions.\<close>

definition readyIsAggregate :: "ConditionSet \<Rightarrow> Condition list \<Rightarrow> bool" where
  "readyIsAggregate cset conds =
     (case findCondition (happy cset) conds of
        None \<Rightarrow> False
      | Some r \<Rightarrow> Status r = aggregateStatus cset conds)"

text \<open>The conditions after a run of marks of the Sequence's condition set, all at one
  clock reading.\<close>

definition applyMarks :: "Time \<Rightarrow> Condition list \<Rightarrow> Condition list \<Rightarrow> Condition list" where
  "applyMarks now marks conds = foldl (\<lambda>cs c. markConditions sCondSet now c cs) conds marks"

text \<open>A condition without its time stamp, a per-stage entry without the time stamp of
  its ready condition, and whether a snapshot has a \<open>Ready\<close> condition at all.\<close>

definition untimed :: "Condition \<Rightarrow> Condition" where
  "untimed c = c\<lparr>LastTransitionTime := 0\<rparr>"

definition untimedChannelEntry :: "SequenceChannelStatus \<Rightarrow> SequenceChannelStatus" where
  "untimedChannelEntry e = e\<lparr>ChannelReadyCondition := untimed (ChannelReadyCondition e)\<rparr>"

definition untimedSubscriptionEntry :: "SequenceSubscriptionStatus \<Rightarrow> SequenceSubscriptionStatus" where
  "untimedSubscriptionEntry e =
     e\<lparr>SubscriptionReadyCondition := untimed (SubscriptionReadyCondition e)\<rparr>"

definition channelHasReady :: "Channelable \<Rightarrow> bool" where
  "channelHasReady c = (Channelable_GetCondition c ConditionReady \<noteq> None)"

definition subscriptionHasReady :: "Subscription \<Rightarrow> bool" where
  "subscriptionHasReady s = (Subscription_GetCondition s SubscriptionConditionReady \<noteq> None)"

section \<open>Sample snapshots\<close>

text \<open>Concrete children for the examples: a \<open>Ready\<close> condition that is \<open>True\<close>, one that is
  \<open>False\<close>, and snapshots built around a list of conditions.\<close>

definition readyIsTrue :: Condition where
  "readyIsTrue =
     \<lparr>Type = ''Ready'', Status = ''True'', Reason = [], Message = [], LastTransitionTime = 3\<rparr>"

definition readyIsFalse :: Condition where
  "readyIsFalse =
     \<lparr>Type = ''Ready'', Status = ''False'', Reason = ''Failed'', Message = ''no dispatcher'',
      LastTransitionTime = 4\<rparr>"

definition sampleSubscription :: "string \<Rightarrow> Condition list \<Rightarrow> Subscription" where
  "sampleSubscription name conds =
     \<lparr>sAPIVersion = ''messaging.knative.dev/v1'', sKind = ''Subscription'', sName = name,
      sNamespace = ''default'', sStatusConditions = conds\<rparr>"

definition sampleChannel :: "string \<Rightarrow> Condition list \<Rightarrow> Addressable option \<Rightarrow> Channelable" where
  "sampleChannel name conds address =
     \<lparr>cAPIVersion = ''messaging.knative.dev/v1'', cKind = ''InMemoryChannel'', cName = name,
      cNamespace = ''default'', cStatusConditions = conds, cStatusAddress = address\<rparr>"

text \<open>The status record after \<open>PropagateSubscriptionStatuses\<close> has been called at time 1
  on the zero status with one subscription that has no conditions.\<close>

definition statusAfterFirstCall :: SequenceStatus where
  "statusAfterFirstCall =
     \<lparr>Conditions =
        [\<lparr>Type = ''SubscriptionsReady'', Status = ''Unknown'', Reason = ''SubscriptionsNotReady'',
          Message = ''Subscriptions are not ready yet, or there are none'',
          LastTransitionTime = 1\<rparr>,
         \<lparr>Type = ''Ready'', Status = ''Unknown'', Reason = [], Message = [],
          LastTransitionTime = 1\<rparr>],
      SubscriptionStatuses =
        [\<lparr>Subscription =
            \<lparr>APIVersion = ''messaging.knative.dev/v1'', Kind = ''Subscription'', Name = ''s0'',
             Namespace = ''default''\<rparr>,
          SubscriptionReadyCondition =
            \<lparr>Type = ''Ready'', Status = ''Unknown'', Reason = ''NoReady'',
             Message = ''Subscription does not have Ready condition'',
             LastTransitionTime = 1\<rparr>\<rparr>],
      ChannelStatuses = [],
      Address = \<lparr>URL = None\<rparr>\<rparr>"

section \<open>Facts about the constants\<close>

lemma conditionTypes_distinct:
  "SequenceConditionChannelsReady \<noteq> ConditionReady"
  "SequenceConditionSubscriptionsReady \<noteq> ConditionReady"
  "SequenceConditionAddressable \<noteq> ConditionReady"
  "SequenceConditionOIDCIdentityCreated \<noteq> ConditionReady"
  "SequenceConditionChannelsReady \<noteq> SequenceConditionSubscriptionsReady"
  "SequenceConditionChannelsReady \<noteq> SequenceConditionAddressable"
  "SequenceConditionChannelsReady \<noteq> SequenceConditionOIDCIdentityCreated"
  "SequenceConditionSubscriptionsReady \<noteq> SequenceConditionChannelsReady"
  "SequenceConditionSubscriptionsReady \<noteq> SequenceConditionAddressable"
  "SequenceConditionSubscriptionsReady \<noteq> SequenceConditionOIDCIdentityCreated"
  "SequenceConditionAddressable \<noteq> SequenceConditionChannelsReady"
  "SequenceConditionAddressable \<noteq> SequenceConditionSubscriptionsReady"
  "SequenceConditionAddressable \<noteq> SequenceConditionOIDCIdentityCreated"
  "SequenceConditionOIDCIdentityCreated \<noteq> SequenceConditionChannelsReady"
  "SequenceConditionOIDCIdentityCreated \<noteq> SequenceConditionSubscriptionsReady"
  "SequenceConditionOIDCIdentityCreated \<noteq> SequenceConditionAddressable"
  by (simp_all add: ConditionReady_def SequenceConditionChannelsReady_def
      SequenceConditionSubscriptionsReady_def SequenceConditionAddressable_def
      SequenceConditionOIDCIdentityCreated_def)

lemma conditionStatuses_distinct:
  "ConditionTrue \<noteq> ConditionFalse" "ConditionTrue \<noteq> ConditionUnknown"
  "ConditionFalse \<noteq> ConditionTrue" "ConditionFalse \<noteq> ConditionUnknown"
  "ConditionUnknown \<noteq> ConditionTrue" "ConditionUnknown \<noteq> ConditionFalse"
  by (simp_all add: ConditionTrue_def ConditionFalse_def ConditionUnknown_def)

lemma happy_sCondSet: "happy sCondSet = ConditionReady"
  by (simp add: sCondSet_def NewLivingConditionSet_def)

lemma dependents_sCondSet: "dependents sCondSet = subConditions"
  by (simp add: sCondSet_def NewLivingConditionSet_def subConditions_def
      SequenceConditionReady_def conditionTypes_distinct)

lemma happy_not_dependent_sCondSet: "happy sCondSet \<notin> set (dependents sCondSet)"
  using conditionTypes_distinct(1-4)
  by (auto simp: happy_sCondSet dependents_sCondSet subConditions_def)

section \<open>Facts about the condition-set primitive\<close>

subsection \<open>Setting one condition\<close>

lemma findCondition_setCondition_other:
  "t \<noteq> Type c \<Longrightarrow> findCondition t (setCondition now c cs) = findCondition t cs"
  by (induction cs) auto

lemma findCondition_setCondition_same:
  "\<exists>time. findCondition (Type c) (setCondition now c cs) = Some (c\<lparr>LastTransitionTime := time\<rparr>)"
proof (induction cs)
  case Nil
  show ?case by auto
next
  case (Cons a cs)
  show ?case
  proof (cases "Type a = Type c")
    case sameType: True
    show ?thesis
    proof (cases "c\<lparr>LastTransitionTime := LastTransitionTime a\<rparr> = a")
      case True
      with sameType show ?thesis by (auto intro: exI[of _ "LastTransitionTime a"])
    next
      case False
      with sameType show ?thesis by auto
    qed
  next
    case False
    with Cons show ?thesis by auto
  qed
qed

subsection \<open>The aggregate\<close>

lemma aggregateStatus_cong:
  "(\<And>t. t \<in> set (dependents cset) \<Longrightarrow> findCondition t a = findCondition t b)
    \<Longrightarrow> aggregateStatus cset a = aggregateStatus cset b"
  unfolding aggregateStatus_def list_all_iff list_ex_iff by simp

lemma aggregateStatus_True_iff:
  "aggregateStatus cset conds = ConditionTrue
    \<longleftrightarrow> (\<forall>t \<in> set (dependents cset). IsTrue (findCondition t conds))"
  unfolding aggregateStatus_def list_all_iff using conditionStatuses_distinct by auto

subsection \<open>Marking a condition\<close>

lemma markCondition_frame:
  "SubscriptionStatuses (markCondition cset now c ss) = SubscriptionStatuses ss"
  "ChannelStatuses (markCondition cset now c ss) = ChannelStatuses ss"
  "Address (markCondition cset now c ss) = Address ss"
  by (simp_all add: markCondition_def)

lemma markCondition_other:
  "t \<noteq> Type c \<Longrightarrow> t \<noteq> happy cset
    \<Longrightarrow> findCondition t (Conditions (markCondition cset now c ss)) = findCondition t (Conditions ss)"
  by (simp add: markCondition_def markConditions_def recomputeHappiness_def
      findCondition_setCondition_other)

lemma markCondition_same:
  assumes "Type c \<noteq> happy cset"
  shows "\<exists>time. findCondition (Type c) (Conditions (markCondition cset now c ss))
           = Some (c\<lparr>LastTransitionTime := time\<rparr>)"
proof -
  have "findCondition (Type c) (Conditions (markCondition cset now c ss))
          = findCondition (Type c) (setCondition now c (Conditions ss))"
    using assms
    by (simp add: markCondition_def markConditions_def recomputeHappiness_def
        findCondition_setCondition_other)
  then show ?thesis using findCondition_setCondition_same [of c now "Conditions ss"] by simp
qed

lemma recomputeHappiness_aggregate:
  assumes "happy cset \<notin> set (dependents cset)"
  shows "aggregateStatus cset (recomputeHappiness cset now conds) = aggregateStatus cset conds"
proof (rule aggregateStatus_cong)
  fix t assume "t \<in> set (dependents cset)"
  with assms have "t \<noteq> happy cset" by auto
  then show "findCondition t (recomputeHappiness cset now conds) = findCondition t conds"
    by (simp add: recomputeHappiness_def findCondition_setCondition_other)
qed

section \<open>Facts about the methods\<close>

subsection \<open>The loops\<close>

lemma list_update_window:
  "i < length xs \<Longrightarrow>
   take (Suc i) (xs[i := a]) @ ys @ drop (Suc (i + n)) (xs[i := a])
     = take i xs @ a # ys @ drop (Suc (i + n)) xs"
  by (simp add: take_Suc_conv_app_nth)

lemma subscriptionsLoop_step:
  "i < length (SubscriptionStatuses ss) \<Longrightarrow>
   subscriptionsLoop now i (Some s # rest) (ss, allReady) =
     subscriptionsLoop now (Suc i) rest
       (ss\<lparr>SubscriptionStatuses := (SubscriptionStatuses ss)[i := subscriptionEntry now s]\<rparr>,
        allReady \<and> subscriptionReady s)"
  by (cases "Subscription_GetCondition s SubscriptionConditionReady")
    (simp_all add: subscriptionEntry_def subscriptionRef_def noReadyCondition_def
      subscriptionReady_def IsTrue_def)

lemma subscriptionsLoop_map_Some:
  "i + length subs \<le> length (SubscriptionStatuses ss) \<Longrightarrow>
   subscriptionsLoop now i (map Some subs) (ss, allReady) =
     Inr (ss\<lparr>SubscriptionStatuses :=
               take i (SubscriptionStatuses ss) @ map (subscriptionEntry now) subs
                 @ drop (i + length subs) (SubscriptionStatuses ss)\<rparr>,
          allReady \<and> list_all subscriptionReady subs)"
proof (induction subs arbitrary: i ss allReady)
  case Nil
  then show ?case by simp
next
  case (Cons s subs)
  then have i: "i < length (SubscriptionStatuses ss)" by simp
  let ?ss1 = "ss\<lparr>SubscriptionStatuses := (SubscriptionStatuses ss)[i := subscriptionEntry now s]\<rparr>"
  have "Suc i + length subs \<le> length (SubscriptionStatuses ?ss1)"
    using Cons.prems by simp
  from Cons.IH [OF this, of "allReady \<and> subscriptionReady s"]
  show ?case
    using list_update_window [OF i, of "subscriptionEntry now s" "map (subscriptionEntry now) subs" "length subs"]
    by (simp add: subscriptionsLoop_step [OF i] del: subscriptionsLoop.simps)
qed

lemma subscriptionsLoop_nil_entry:
  "None \<in> set subscriptions \<Longrightarrow>
   subscriptionsLoop now i subscriptions (ss, allReady) = Inl NilPointerDereference"
proof (induction subscriptions arbitrary: i ss allReady)
  case Nil
  then show ?case by simp
next
  case (Cons x rest)
  show ?case
  proof (cases x)
    case None
    then show ?thesis by simp
  next
    case (Some s)
    with Cons.prems have "None \<in> set rest" by simp
    with Some show ?thesis
      by (simp add: Cons.IH Let_def split: option.split)
  qed
qed

lemma setAddress_frame:
  "SubscriptionStatuses (setAddress now a ss) = SubscriptionStatuses ss"
  "ChannelStatuses (setAddress now a ss) = ChannelStatuses ss"
  by (simp_all add: setAddress_def Let_def Manage_MarkUnknown_def Manage_MarkTrue_def
      markCondition_frame)

lemma setAddress_ChannelStatuses_update:
  "setAddress now a (ss\<lparr>ChannelStatuses := x\<rparr>) = (setAddress now a ss)\<lparr>ChannelStatuses := x\<rparr>"
  by (simp add: setAddress_def Let_def Manage_MarkUnknown_def Manage_MarkTrue_def
      markCondition_def)

lemma channelsLoop_step:
  "i < length (ChannelStatuses ss) \<Longrightarrow>
   channelsLoop now i (Some c # rest) (ss, allReady) =
     channelsLoop now (Suc i) rest
       ((if i = 0 then setAddress now (cStatusAddress c) ss else ss)
          \<lparr>ChannelStatuses := (ChannelStatuses ss)[i := channelEntry now c]\<rparr>,
        allReady \<and> channelReady c)"
  by (cases "i = 0"; cases "Channelable_GetCondition c ConditionReady")
    (simp_all add: channelEntry_def channelRef_def noReadyCondition_def
      channelReady_def IsTrue_def setAddress_frame)

lemma channelsLoop_map_Some:
  "0 < i \<Longrightarrow> i + length chs \<le> length (ChannelStatuses ss) \<Longrightarrow>
   channelsLoop now i (map Some chs) (ss, allReady) =
     Inr (ss\<lparr>ChannelStatuses :=
               take i (ChannelStatuses ss) @ map (channelEntry now) chs
                 @ drop (i + length chs) (ChannelStatuses ss)\<rparr>,
          allReady \<and> list_all channelReady chs)"
proof (induction chs arbitrary: i ss allReady)
  case Nil
  then show ?case by simp
next
  case (Cons c chs)
  then have i: "i < length (ChannelStatuses ss)" and pos: "i \<noteq> 0" by simp_all
  let ?ss1 = "ss\<lparr>ChannelStatuses := (ChannelStatuses ss)[i := channelEntry now c]\<rparr>"
  have "Suc i + length chs \<le> length (ChannelStatuses ?ss1)"
    using Cons.prems by simp
  from Cons.IH [OF _ this, of "allReady \<and> channelReady c"]
  show ?case
    using list_update_window [OF i, of "channelEntry now c" "map (channelEntry now) chs" "length chs"] pos
    by (simp add: channelsLoop_step [OF i] del: channelsLoop.simps)
qed

lemma channelsLoop_nil_entry:
  "None \<in> set channels \<Longrightarrow>
   channelsLoop now i channels (ss, allReady) = Inl NilPointerDereference"
proof (induction channels arbitrary: i ss allReady)
  case Nil
  then show ?case by simp
next
  case (Cons x rest)
  show ?case
  proof (cases x)
    case None
    then show ?thesis by simp
  next
    case (Some s)
    with Cons.prems have "None \<in> set rest" by simp
    with Some show ?thesis
      by (simp add: Cons.IH Let_def split: option.split)
  qed
qed

subsection \<open>The propagation methods on lists without nil entries\<close>

lemma PropagateSubscriptionStatuses_map_Some:
  "PropagateSubscriptionStatuses now (map Some subs) ss =
     Inr (if subs \<noteq> [] \<and> list_all subscriptionReady subs
          then Manage_MarkTrue sCondSet now SequenceConditionSubscriptionsReady
                 (ss\<lparr>SubscriptionStatuses := map (subscriptionEntry now) subs\<rparr>)
          else MarkSubscriptionsNotReady now ''SubscriptionsNotReady''
                 ''Subscriptions are not ready yet, or there are none''
                 (ss\<lparr>SubscriptionStatuses := map (subscriptionEntry now) subs\<rparr>))"
  by (simp add: PropagateSubscriptionStatuses_def subscriptionsLoop_map_Some
      del: subscriptionsLoop.simps)

lemma PropagateChannelStatuses_Nil:
  "PropagateChannelStatuses now [] ss =
     Inr (MarkChannelsNotReady now ''ChannelsNotReady''
            ''Channels are not ready yet, or there are none'' (ss\<lparr>ChannelStatuses := []\<rparr>))"
  by (simp add: PropagateChannelStatuses_def)

lemma PropagateChannelStatuses_Cons:
  "PropagateChannelStatuses now (map Some (c # rest)) ss =
     Inr (if list_all channelReady (c # rest)
          then Manage_MarkTrue sCondSet now SequenceConditionChannelsReady
                 ((setAddress now (cStatusAddress c) ss)
                    \<lparr>ChannelStatuses := map (channelEntry now) (c # rest)\<rparr>)
          else MarkChannelsNotReady now ''ChannelsNotReady''
                 ''Channels are not ready yet, or there are none''
                 ((setAddress now (cStatusAddress c) ss)
                    \<lparr>ChannelStatuses := map (channelEntry now) (c # rest)\<rparr>))"
proof -
  let ?ss0 = "ss\<lparr>ChannelStatuses := replicate (Suc (length rest)) zeroSequenceChannelStatus\<rparr>"
  let ?ss1 = "(setAddress now (cStatusAddress c) ?ss0)
                \<lparr>ChannelStatuses := (ChannelStatuses ?ss0)[0 := channelEntry now c]\<rparr>"
  have step: "channelsLoop now 0 (map Some (c # rest)) (?ss0, True)
      = channelsLoop now (Suc 0) (map Some rest) (?ss1, channelReady c)"
    using channelsLoop_step [of 0 ?ss0 now c "map Some rest" True] by simp
  have "channelsLoop now (Suc 0) (map Some rest) (?ss1, channelReady c)
      = Inr ((setAddress now (cStatusAddress c) ss)
               \<lparr>ChannelStatuses := map (channelEntry now) (c # rest)\<rparr>,
             list_all channelReady (c # rest))"
    by (subst channelsLoop_map_Some) (simp_all add: setAddress_ChannelStatuses_update)
  with step show ?thesis
    by (simp add: PropagateChannelStatuses_def del: channelsLoop.simps)
qed

lemma PropagateSubscriptionStatuses_nil_entry:
  "None \<in> set subscriptions \<Longrightarrow>
   PropagateSubscriptionStatuses now subscriptions ss = Inl NilPointerDereference"
  by (simp add: PropagateSubscriptionStatuses_def subscriptionsLoop_nil_entry
      del: subscriptionsLoop.simps)

lemma PropagateChannelStatuses_nil_entry:
  "None \<in> set channels \<Longrightarrow>
   PropagateChannelStatuses now channels ss = Inl NilPointerDereference"
  by (simp add: PropagateChannelStatuses_def channelsLoop_nil_entry
      del: channelsLoop.simps)

subsection \<open>The stored aggregate after a mark\<close>

lemma recomputeHappiness_readyIsAggregate:
  assumes "happy cset \<notin> set (dependents cset)"
  shows "readyIsAggregate cset (recomputeHappiness cset now conds)"
proof -
  let ?h = "\<lparr>Type = happy cset, Status = aggregateStatus cset conds, Reason = [], Message = [],
             LastTransitionTime = now\<rparr>"
  obtain time where "findCondition (Type ?h) (setCondition now ?h conds)
      = Some (?h\<lparr>LastTransitionTime := time\<rparr>)"
    using findCondition_setCondition_same by blast
  then have "findCondition (happy cset) (recomputeHappiness cset now conds)
      = Some (?h\<lparr>LastTransitionTime := time\<rparr>)"
    by (simp add: recomputeHappiness_def)
  then show ?thesis
    by (simp add: readyIsAggregate_def recomputeHappiness_aggregate [OF assms])
qed

lemma markCondition_readyIsAggregate:
  "happy cset \<notin> set (dependents cset) \<Longrightarrow> Type c \<in> set (dependents cset)
    \<Longrightarrow> readyIsAggregate cset (Conditions (markCondition cset now c ss))"
  by (simp add: markCondition_def markConditions_def recomputeHappiness_readyIsAggregate)

lemma mark_sub_readyIsAggregate:
  "Type c \<in> set subConditions
    \<Longrightarrow> readyIsAggregate sCondSet (Conditions (markCondition sCondSet now c ss))"
  using markCondition_readyIsAggregate [OF happy_not_dependent_sCondSet]
  by (simp add: dependents_sCondSet)

lemma readyIsAggregate_status:
  "readyIsAggregate sCondSet (Conditions ss) \<Longrightarrow>
   statusOf (GetCondition ss SequenceConditionReady) = Some (aggregateStatus sCondSet (Conditions ss))"
  by (auto simp: readyIsAggregate_def happy_sCondSet statusOf_def GetCondition_def
      Manage_GetCondition_def SequenceConditionReady_def split: option.splits)

subsection \<open>Marks of the Sequence's condition set\<close>

lemma GetCondition_markCondition_other:
  "t \<noteq> Type c \<Longrightarrow> t \<noteq> ConditionReady
    \<Longrightarrow> GetCondition (markCondition sCondSet now c ss) t = GetCondition ss t"
  by (simp add: GetCondition_def Manage_GetCondition_def markCondition_other happy_sCondSet)

lemma GetCondition_markCondition_same:
  "Type c \<noteq> ConditionReady
    \<Longrightarrow> \<exists>time. GetCondition (markCondition sCondSet now c ss) (Type c)
           = Some (c\<lparr>LastTransitionTime := time\<rparr>)"
  using markCondition_same [of c sCondSet now ss]
  by (simp add: GetCondition_def Manage_GetCondition_def happy_sCondSet)

lemma GetCondition_update_statuses:
  "GetCondition (ss\<lparr>SubscriptionStatuses := x\<rparr>) t = GetCondition ss t"
  "GetCondition (ss\<lparr>ChannelStatuses := y\<rparr>) t = GetCondition ss t"
  "GetCondition (ss\<lparr>Address := z\<rparr>) t = GetCondition ss t"
  by (simp_all add: GetCondition_def Manage_GetCondition_def)

lemmas Manage_Mark_defs =
  Manage_MarkTrue_def Manage_MarkTrueWithReason_def Manage_MarkFalse_def Manage_MarkUnknown_def

lemma IsReady_iff_aggregate:
  assumes "readyIsAggregate sCondSet (Conditions ss)"
  shows "IsReady ss \<longleftrightarrow> (\<forall>t \<in> set subConditions. IsTrue (GetCondition ss t))"
proof -
  from assms obtain r where "findCondition ConditionReady (Conditions ss) = Some r"
    and "Status r = aggregateStatus sCondSet (Conditions ss)"
    by (auto simp: readyIsAggregate_def happy_sCondSet split: option.splits)
  then have "IsReady ss \<longleftrightarrow> aggregateStatus sCondSet (Conditions ss) = ConditionTrue"
    by (simp add: IsReady_def Manage_IsHappy_def Manage_GetCondition_def happy_sCondSet IsTrue_def)
  then show ?thesis
    by (simp add: aggregateStatus_True_iff dependents_sCondSet GetCondition_def
        Manage_GetCondition_def)
qed

lemma IsReady_no_conditions:
  "Conditions ss = [] \<Longrightarrow> \<not> IsReady ss \<and> \<not> IsTrue (GetCondition ss t)"
  by (simp add: IsReady_def Manage_IsHappy_def GetCondition_def Manage_GetCondition_def IsTrue_def)

lemma not_ready_after_mark:
  assumes "Type c \<in> set subConditions" and "Status c \<noteq> ConditionTrue"
  shows "\<not> IsReady (markCondition sCondSet now c ss)"
proof -
  have ne: "Type c \<noteq> ConditionReady"
    using assms(1) conditionTypes_distinct(1-4) by (auto simp: subConditions_def)
  obtain time where "GetCondition (markCondition sCondSet now c ss) (Type c)
      = Some (c\<lparr>LastTransitionTime := time\<rparr>)"
    using GetCondition_markCondition_same [OF ne] by blast
  with assms(2) have "\<not> IsTrue (GetCondition (markCondition sCondSet now c ss) (Type c))"
    by (simp add: IsTrue_def)
  with assms(1) show ?thesis
    using IsReady_iff_aggregate [OF mark_sub_readyIsAggregate [OF assms(1)]]
    by blast
qed

subsection \<open>What the methods leave in the status\<close>

lemma setAddress_Address:
  "Address (setAddress now address ss) =
     (case address of None \<Rightarrow> zeroAddressable
      | Some a \<Rightarrow> (case URL a of None \<Rightarrow> zeroAddressable | Some u \<Rightarrow> \<lparr>URL = Some u\<rparr>))"
  by (simp add: setAddress_def Let_def Manage_Mark_defs markCondition_frame
      split: option.split)

lemma setAddress_Addressable:
  "\<exists>time. GetCondition (setAddress now address ss) SequenceConditionAddressable =
     Some (if (case address of None \<Rightarrow> True | Some a \<Rightarrow> URL a = None)
           then \<lparr>Type = SequenceConditionAddressable, Status = ConditionUnknown,
                 Reason = ''emptyAddress'', Message = ''addressable is nil'',
                 LastTransitionTime = time\<rparr>
           else \<lparr>Type = SequenceConditionAddressable, Status = ConditionTrue,
                 Reason = [], Message = [], LastTransitionTime = time\<rparr>)"
proof (cases "case address of None \<Rightarrow> True | Some a \<Rightarrow> URL a = None")
  case True
  then show ?thesis
    using GetCondition_markCondition_same [of
        "\<lparr>Type = SequenceConditionAddressable, Status = ConditionUnknown,
          Reason = ''emptyAddress'', Message = ''addressable is nil'',
          LastTransitionTime = now\<rparr>" now "ss\<lparr>Address := zeroAddressable\<rparr>"]
    by (simp add: setAddress_def Manage_Mark_defs conditionTypes_distinct)
next
  case False
  then show ?thesis
    using GetCondition_markCondition_same [of
        "\<lparr>Type = SequenceConditionAddressable, Status = ConditionTrue,
          Reason = [], Message = [], LastTransitionTime = now\<rparr>" now
        "ss\<lparr>Address := \<lparr>URL = (case address of None \<Rightarrow> None | Some a \<Rightarrow> URL a)\<rparr>\<rparr>"]
    by (simp add: setAddress_def Manage_Mark_defs conditionTypes_distinct)
qed

lemma setAddress_other:
  "t \<noteq> SequenceConditionAddressable \<Longrightarrow> t \<noteq> ConditionReady
    \<Longrightarrow> GetCondition (setAddress now address ss) t = GetCondition ss t"
  by (simp add: setAddress_def Let_def Manage_Mark_defs GetCondition_markCondition_other
      GetCondition_update_statuses)

lemma MarkUnknown_same:
  "t \<noteq> ConditionReady \<Longrightarrow>
   \<exists>time. GetCondition (Manage_MarkUnknown sCondSet now t reason message ss) t =
     Some \<lparr>Type = t, Status = ConditionUnknown, Reason = reason, Message = message,
           LastTransitionTime = time\<rparr>"
  using GetCondition_markCondition_same [of
      "\<lparr>Type = t, Status = ConditionUnknown, Reason = reason, Message = message,
        LastTransitionTime = now\<rparr>" now ss]
  by (simp add: Manage_Mark_defs)

lemma MarkTrue_same:
  "t \<noteq> ConditionReady \<Longrightarrow>
   \<exists>time. GetCondition (Manage_MarkTrue sCondSet now t ss) t =
     Some \<lparr>Type = t, Status = ConditionTrue, Reason = [], Message = [],
           LastTransitionTime = time\<rparr>"
  using GetCondition_markCondition_same [of
      "\<lparr>Type = t, Status = ConditionTrue, Reason = [], Message = [],
        LastTransitionTime = now\<rparr>" now ss]
  by (simp add: Manage_Mark_defs)

lemma Mark_other:
  assumes "t \<noteq> u" and "t \<noteq> ConditionReady"
  shows "GetCondition (Manage_MarkUnknown sCondSet now u reason message ss) t = GetCondition ss t"
    and "GetCondition (Manage_MarkTrue sCondSet now u ss) t = GetCondition ss t"
    and "GetCondition (Manage_MarkTrueWithReason sCondSet now u reason message ss) t = GetCondition ss t"
    and "GetCondition (Manage_MarkFalse sCondSet now u reason message ss) t = GetCondition ss t"
  using assms by (simp_all add: Manage_Mark_defs GetCondition_markCondition_other)

lemma Mark_frame:
  "SubscriptionStatuses (Manage_MarkUnknown cset now u reason message ss) = SubscriptionStatuses ss"
  "ChannelStatuses (Manage_MarkUnknown cset now u reason message ss) = ChannelStatuses ss"
  "Address (Manage_MarkUnknown cset now u reason message ss) = Address ss"
  "SubscriptionStatuses (Manage_MarkTrue cset now u ss) = SubscriptionStatuses ss"
  "ChannelStatuses (Manage_MarkTrue cset now u ss) = ChannelStatuses ss"
  "Address (Manage_MarkTrue cset now u ss) = Address ss"
  "SubscriptionStatuses (Manage_MarkTrueWithReason cset now u reason message ss) = SubscriptionStatuses ss"
  "ChannelStatuses (Manage_MarkTrueWithReason cset now u reason message ss) = ChannelStatuses ss"
  "Address (Manage_MarkTrueWithReason cset now u reason message ss) = Address ss"
  "SubscriptionStatuses (Manage_MarkFalse cset now u reason message ss) = SubscriptionStatuses ss"
  "ChannelStatuses (Manage_MarkFalse cset now u reason message ss) = ChannelStatuses ss"
  "Address (Manage_MarkFalse cset now u reason message ss) = Address ss"
  by (simp_all add: Manage_Mark_defs markCondition_frame)

lemma PropagateSubscriptionStatuses_outcome:
  "\<exists>ss' time.
     PropagateSubscriptionStatuses now (map Some subs) ss = Inr ss'
     \<and> SubscriptionStatuses ss' = map (subscriptionEntry now) subs
     \<and> ChannelStatuses ss' = ChannelStatuses ss
     \<and> Address ss' = Address ss
     \<and> GetCondition ss' SequenceConditionSubscriptionsReady =
         Some (if subs \<noteq> [] \<and> list_all subscriptionReady subs
               then \<lparr>Type = SequenceConditionSubscriptionsReady, Status = ConditionTrue,
                     Reason = [], Message = [], LastTransitionTime = time\<rparr>
               else \<lparr>Type = SequenceConditionSubscriptionsReady, Status = ConditionUnknown,
                     Reason = ''SubscriptionsNotReady'',
                     Message = ''Subscriptions are not ready yet, or there are none'',
                     LastTransitionTime = time\<rparr>)
     \<and> (\<forall>t. t \<noteq> SequenceConditionSubscriptionsReady \<longrightarrow> t \<noteq> ConditionReady
            \<longrightarrow> GetCondition ss' t = GetCondition ss t)"
proof (cases "subs \<noteq> [] \<and> list_all subscriptionReady subs")
  case True
  let ?ss1 = "ss\<lparr>SubscriptionStatuses := map (subscriptionEntry now) subs\<rparr>"
  obtain time where "GetCondition
      (Manage_MarkTrue sCondSet now SequenceConditionSubscriptionsReady ?ss1)
      SequenceConditionSubscriptionsReady
    = Some \<lparr>Type = SequenceConditionSubscriptionsReady, Status = ConditionTrue,
             Reason = [], Message = [], LastTransitionTime = time\<rparr>"
    using MarkTrue_same [OF conditionTypes_distinct(2)] by blast
  with True show ?thesis
    by (simp add: PropagateSubscriptionStatuses_map_Some Mark_frame Mark_other
        GetCondition_update_statuses del: map_eq_conv)
next
  case False
  let ?ss1 = "ss\<lparr>SubscriptionStatuses := map (subscriptionEntry now) subs\<rparr>"
  obtain time where "GetCondition
      (Manage_MarkUnknown sCondSet now SequenceConditionSubscriptionsReady
         ''SubscriptionsNotReady'' ''Subscriptions are not ready yet, or there are none'' ?ss1)
      SequenceConditionSubscriptionsReady
    = Some \<lparr>Type = SequenceConditionSubscriptionsReady, Status = ConditionUnknown,
             Reason = ''SubscriptionsNotReady'',
             Message = ''Subscriptions are not ready yet, or there are none'',
             LastTransitionTime = time\<rparr>"
    using MarkUnknown_same [OF conditionTypes_distinct(2)] by blast
  with False show ?thesis
    by (simp add: PropagateSubscriptionStatuses_map_Some MarkSubscriptionsNotReady_def
        Mark_frame Mark_other GetCondition_update_statuses del: map_eq_conv de_Morgan_conj)
qed

lemma PropagateChannelStatuses_verdict:
  "\<exists>ss' time.
     PropagateChannelStatuses now (map Some chs) ss = Inr ss'
     \<and> ChannelStatuses ss' = map (channelEntry now) chs
     \<and> SubscriptionStatuses ss' = SubscriptionStatuses ss
     \<and> GetCondition ss' SequenceConditionChannelsReady =
         Some (if chs \<noteq> [] \<and> list_all channelReady chs
               then \<lparr>Type = SequenceConditionChannelsReady, Status = ConditionTrue,
                     Reason = [], Message = [], LastTransitionTime = time\<rparr>
               else \<lparr>Type = SequenceConditionChannelsReady, Status = ConditionUnknown,
                     Reason = ''ChannelsNotReady'',
                     Message = ''Channels are not ready yet, or there are none'',
                     LastTransitionTime = time\<rparr>)"
proof (cases chs)
  case Nil
  obtain time where "GetCondition
      (Manage_MarkUnknown sCondSet now SequenceConditionChannelsReady
         ''ChannelsNotReady'' ''Channels are not ready yet, or there are none''
         (ss\<lparr>ChannelStatuses := []\<rparr>))
      SequenceConditionChannelsReady
    = Some \<lparr>Type = SequenceConditionChannelsReady, Status = ConditionUnknown,
             Reason = ''ChannelsNotReady'',
             Message = ''Channels are not ready yet, or there are none'',
             LastTransitionTime = time\<rparr>"
    using MarkUnknown_same [OF conditionTypes_distinct(1)] by blast
  with Nil show ?thesis
    by (simp add: PropagateChannelStatuses_Nil MarkChannelsNotReady_def Mark_frame)
next
  case (Cons c rest)
  let ?ss1 = "(setAddress now (cStatusAddress c) ss)
                \<lparr>ChannelStatuses := map (channelEntry now) (c # rest)\<rparr>"
  show ?thesis
  proof (cases "list_all channelReady (c # rest)")
    case True
    obtain time where "GetCondition
        (Manage_MarkTrue sCondSet now SequenceConditionChannelsReady ?ss1)
        SequenceConditionChannelsReady
      = Some \<lparr>Type = SequenceConditionChannelsReady, Status = ConditionTrue,
               Reason = [], Message = [], LastTransitionTime = time\<rparr>"
      using MarkTrue_same [OF conditionTypes_distinct(1)] by blast
    with True Cons show ?thesis
      by (simp add: PropagateChannelStatuses_Cons Mark_frame setAddress_frame
          del: list.map list.pred_inject)
  next
    case False
    obtain time where "GetCondition
        (Manage_MarkUnknown sCondSet now SequenceConditionChannelsReady
           ''ChannelsNotReady'' ''Channels are not ready yet, or there are none'' ?ss1)
        SequenceConditionChannelsReady
      = Some \<lparr>Type = SequenceConditionChannelsReady, Status = ConditionUnknown,
               Reason = ''ChannelsNotReady'',
               Message = ''Channels are not ready yet, or there are none'',
               LastTransitionTime = time\<rparr>"
      using MarkUnknown_same [OF conditionTypes_distinct(1)] by blast
    with False Cons show ?thesis
      by (simp add: PropagateChannelStatuses_Cons MarkChannelsNotReady_def Mark_frame
          setAddress_frame del: list.map list.pred_inject)
  qed
qed

lemma PropagateChannelStatuses_Nil_rest:
  "\<exists>ss'. PropagateChannelStatuses now [] ss = Inr ss'
     \<and> Address ss' = Address ss
     \<and> (\<forall>t. t \<noteq> SequenceConditionChannelsReady \<longrightarrow> t \<noteq> ConditionReady
            \<longrightarrow> GetCondition ss' t = GetCondition ss t)"
  by (simp add: PropagateChannelStatuses_Nil MarkChannelsNotReady_def Mark_frame Mark_other
      GetCondition_update_statuses)

lemma PropagateChannelStatuses_Cons_rest:
  "\<exists>ss'. PropagateChannelStatuses now (map Some (c # rest)) ss = Inr ss'
     \<and> Address ss' = Address (setAddress now (cStatusAddress c) ss)
     \<and> GetCondition ss' SequenceConditionAddressable
         = GetCondition (setAddress now (cStatusAddress c) ss) SequenceConditionAddressable
     \<and> (\<forall>t. t \<noteq> SequenceConditionChannelsReady \<longrightarrow> t \<noteq> SequenceConditionAddressable
            \<longrightarrow> t \<noteq> ConditionReady \<longrightarrow> GetCondition ss' t = GetCondition ss t)"
  by (simp add: PropagateChannelStatuses_Cons MarkChannelsNotReady_def Mark_frame Mark_other
      GetCondition_update_statuses setAddress_other conditionTypes_distinct
      del: list.map list.pred_inject)

section \<open>What a propagation call stores and marks\<close>

lemma map_Channel_channelEntry: "map Channel (map (channelEntry now) chs) = map channelRef chs"
  by (simp add: channelEntry_def)

lemma map_Subscription_subscriptionEntry:
  "map Subscription (map (subscriptionEntry now) subs) = map subscriptionRef subs"
  by (simp add: subscriptionEntry_def)

lemmas sample_defs =
  readyIsTrue_def readyIsFalse_def sampleSubscription_def sampleChannel_def
  channelReady_def subscriptionReady_def channelReadyFalse_def subscriptionReadyFalse_def
  Channelable_GetCondition_def Subscription_GetCondition_def SubscriptionConditionReady_def
  ConditionReady_def ConditionTrue_def ConditionFalse_def ConditionUnknown_def
  IsTrue_def IsFalse_def channelRef_def subscriptionRef_def

text \<open>C2. When every snapshot of a non-empty list carries a \<open>Ready\<close> condition with status
  \<open>True\<close>, \<open>PropagateChannelStatuses\<close> leaves \<open>ChannelsReady\<close> with status \<open>True\<close> and
  \<open>ChannelStatuses\<close> with one entry per snapshot, the object references in the order of the
  input; \<open>PropagateSubscriptionStatuses\<close> does the same for \<open>SubscriptionsReady\<close> and
  \<open>SubscriptionStatuses\<close>.\<close>

theorem all_ready_marks_true:
  "(chs \<noteq> [] \<and> list_all channelReady chs \<longrightarrow>
      (\<exists>ss'. PropagateChannelStatuses now (map Some chs) ss = Inr ss'
         \<and> statusOf (GetCondition ss' SequenceConditionChannelsReady) = Some ConditionTrue
         \<and> length (ChannelStatuses ss') = length chs
         \<and> map Channel (ChannelStatuses ss') = map channelRef chs))
   \<and> (subs \<noteq> [] \<and> list_all subscriptionReady subs \<longrightarrow>
      (\<exists>ss'. PropagateSubscriptionStatuses now (map Some subs) ss = Inr ss'
         \<and> statusOf (GetCondition ss' SequenceConditionSubscriptionsReady) = Some ConditionTrue
         \<and> length (SubscriptionStatuses ss') = length subs
         \<and> map Subscription (SubscriptionStatuses ss') = map subscriptionRef subs))"
proof (intro conjI impI)
  assume ready: "chs \<noteq> [] \<and> list_all channelReady chs"
  obtain ss' time where "PropagateChannelStatuses now (map Some chs) ss = Inr ss'"
    and "ChannelStatuses ss' = map (channelEntry now) chs"
    and "GetCondition ss' SequenceConditionChannelsReady =
         Some (if chs \<noteq> [] \<and> list_all channelReady chs
               then \<lparr>Type = SequenceConditionChannelsReady, Status = ConditionTrue,
                     Reason = [], Message = [], LastTransitionTime = time\<rparr>
               else \<lparr>Type = SequenceConditionChannelsReady, Status = ConditionUnknown,
                     Reason = ''ChannelsNotReady'',
                     Message = ''Channels are not ready yet, or there are none'',
                     LastTransitionTime = time\<rparr>)"
    using PropagateChannelStatuses_verdict [of now chs ss] by blast
  with ready show "\<exists>ss'. PropagateChannelStatuses now (map Some chs) ss = Inr ss'
         \<and> statusOf (GetCondition ss' SequenceConditionChannelsReady) = Some ConditionTrue
         \<and> length (ChannelStatuses ss') = length chs
         \<and> map Channel (ChannelStatuses ss') = map channelRef chs"
    by (simp add: statusOf_def map_Channel_channelEntry del: map_map)
next
  assume ready: "subs \<noteq> [] \<and> list_all subscriptionReady subs"
  obtain ss' time where "PropagateSubscriptionStatuses now (map Some subs) ss = Inr ss'"
    and "SubscriptionStatuses ss' = map (subscriptionEntry now) subs"
    and "GetCondition ss' SequenceConditionSubscriptionsReady =
         Some (if subs \<noteq> [] \<and> list_all subscriptionReady subs
               then \<lparr>Type = SequenceConditionSubscriptionsReady, Status = ConditionTrue,
                     Reason = [], Message = [], LastTransitionTime = time\<rparr>
               else \<lparr>Type = SequenceConditionSubscriptionsReady, Status = ConditionUnknown,
                     Reason = ''SubscriptionsNotReady'',
                     Message = ''Subscriptions are not ready yet, or there are none'',
                     LastTransitionTime = time\<rparr>)"
    using PropagateSubscriptionStatuses_outcome [of now subs ss] by blast
  with ready show "\<exists>ss'. PropagateSubscriptionStatuses now (map Some subs) ss = Inr ss'
         \<and> statusOf (GetCondition ss' SequenceConditionSubscriptionsReady) = Some ConditionTrue
         \<and> length (SubscriptionStatuses ss') = length subs
         \<and> map Subscription (SubscriptionStatuses ss') = map subscriptionRef subs"
    by (simp add: statusOf_def map_Subscription_subscriptionEntry del: map_map)
qed

theorem all_ready_marks_true_witness:
  "(\<exists>ss'. PropagateChannelStatuses 7
             (map Some [sampleChannel ''c0'' [readyIsTrue] None,
                        sampleChannel ''c1'' [readyIsTrue] None]) zeroSequenceStatus = Inr ss'
         \<and> statusOf (GetCondition ss' SequenceConditionChannelsReady) = Some ConditionTrue
         \<and> length (ChannelStatuses ss') = 2
         \<and> map Channel (ChannelStatuses ss') =
             [channelRef (sampleChannel ''c0'' [readyIsTrue] None),
              channelRef (sampleChannel ''c1'' [readyIsTrue] None)])
   \<and> (\<exists>ss'. PropagateSubscriptionStatuses 7
             (map Some [sampleSubscription ''s0'' [readyIsTrue]]) zeroSequenceStatus = Inr ss'
         \<and> statusOf (GetCondition ss' SequenceConditionSubscriptionsReady) = Some ConditionTrue
         \<and> length (SubscriptionStatuses ss') = 1
         \<and> map Subscription (SubscriptionStatuses ss') =
             [subscriptionRef (sampleSubscription ''s0'' [readyIsTrue])])"
proof -
  have c: "list_all channelReady [sampleChannel ''c0'' [readyIsTrue] None,
                                  sampleChannel ''c1'' [readyIsTrue] None]"
    by (simp add: sample_defs)
  have s: "list_all subscriptionReady [sampleSubscription ''s0'' [readyIsTrue]]"
    by (simp add: sample_defs)
  show ?thesis
    using all_ready_marks_true [of "[sampleChannel ''c0'' [readyIsTrue] None,
                                    sampleChannel ''c1'' [readyIsTrue] None]"
        7 zeroSequenceStatus "[sampleSubscription ''s0'' [readyIsTrue]]"] c s
    by (simp add: numeral_2_eq_2)
qed

lemma readyFalse_not_ready:
  "channelReadyFalse c \<Longrightarrow> \<not> channelReady c"
  "subscriptionReadyFalse s \<Longrightarrow> \<not> subscriptionReady s"
  using conditionStatuses_distinct
  by (auto simp: channelReadyFalse_def channelReady_def subscriptionReadyFalse_def
      subscriptionReady_def IsTrue_def IsFalse_def split: option.splits)

lemma not_all_ready_nth:
  "i < length xs \<Longrightarrow> \<not> P (xs ! i) \<Longrightarrow> \<not> list_all P xs"
  by (auto simp: list_all_length)

text \<open>C3. In a list of at least two snapshots where one snapshot's \<open>Ready\<close> condition has
  status \<open>False\<close> and every other one has status \<open>True\<close>, the aggregate condition gets
  status \<open>Unknown\<close> with reason \<open>ChannelsNotReady\<close> (channels) or \<open>SubscriptionsNotReady\<close>
  (subscriptions): neither \<open>True\<close> nor \<open>False\<close>.\<close>

theorem one_false_marks_unknown:
  "(2 \<le> length chs \<and> i < length chs \<and> channelReadyFalse (chs ! i)
      \<and> (\<forall>j < length chs. j \<noteq> i \<longrightarrow> channelReady (chs ! j)) \<longrightarrow>
      (\<exists>ss' c. PropagateChannelStatuses now (map Some chs) ss = Inr ss'
         \<and> GetCondition ss' SequenceConditionChannelsReady = Some c
         \<and> Status c = ConditionUnknown \<and> Reason c = ''ChannelsNotReady''
         \<and> Status c \<noteq> ConditionTrue \<and> Status c \<noteq> ConditionFalse))
   \<and> (2 \<le> length subs \<and> k < length subs \<and> subscriptionReadyFalse (subs ! k)
      \<and> (\<forall>j < length subs. j \<noteq> k \<longrightarrow> subscriptionReady (subs ! j)) \<longrightarrow>
      (\<exists>ss' c. PropagateSubscriptionStatuses now (map Some subs) ss = Inr ss'
         \<and> GetCondition ss' SequenceConditionSubscriptionsReady = Some c
         \<and> Status c = ConditionUnknown \<and> Reason c = ''SubscriptionsNotReady''
         \<and> Status c \<noteq> ConditionTrue \<and> Status c \<noteq> ConditionFalse))"
proof (intro conjI impI)
  assume h: "2 \<le> length chs \<and> i < length chs \<and> channelReadyFalse (chs ! i)
      \<and> (\<forall>j < length chs. j \<noteq> i \<longrightarrow> channelReady (chs ! j))"
  then have notAll: "\<not> (chs \<noteq> [] \<and> list_all channelReady chs)"
    using not_all_ready_nth [of i chs channelReady] readyFalse_not_ready(1) by blast
  obtain ss' time where "PropagateChannelStatuses now (map Some chs) ss = Inr ss'"
    and "GetCondition ss' SequenceConditionChannelsReady =
         Some (if chs \<noteq> [] \<and> list_all channelReady chs
               then \<lparr>Type = SequenceConditionChannelsReady, Status = ConditionTrue,
                     Reason = [], Message = [], LastTransitionTime = time\<rparr>
               else \<lparr>Type = SequenceConditionChannelsReady, Status = ConditionUnknown,
                     Reason = ''ChannelsNotReady'',
                     Message = ''Channels are not ready yet, or there are none'',
                     LastTransitionTime = time\<rparr>)"
    using PropagateChannelStatuses_verdict [of now chs ss] by blast
  with notAll show "\<exists>ss' c. PropagateChannelStatuses now (map Some chs) ss = Inr ss'
         \<and> GetCondition ss' SequenceConditionChannelsReady = Some c
         \<and> Status c = ConditionUnknown \<and> Reason c = ''ChannelsNotReady''
         \<and> Status c \<noteq> ConditionTrue \<and> Status c \<noteq> ConditionFalse"
    by (simp add: conditionStatuses_distinct del: de_Morgan_conj)
next
  assume h: "2 \<le> length subs \<and> k < length subs \<and> subscriptionReadyFalse (subs ! k)
      \<and> (\<forall>j < length subs. j \<noteq> k \<longrightarrow> subscriptionReady (subs ! j))"
  then have notAll: "\<not> (subs \<noteq> [] \<and> list_all subscriptionReady subs)"
    using not_all_ready_nth [of k subs subscriptionReady] readyFalse_not_ready(2) by blast
  obtain ss' time where "PropagateSubscriptionStatuses now (map Some subs) ss = Inr ss'"
    and "GetCondition ss' SequenceConditionSubscriptionsReady =
         Some (if subs \<noteq> [] \<and> list_all subscriptionReady subs
               then \<lparr>Type = SequenceConditionSubscriptionsReady, Status = ConditionTrue,
                     Reason = [], Message = [], LastTransitionTime = time\<rparr>
               else \<lparr>Type = SequenceConditionSubscriptionsReady, Status = ConditionUnknown,
                     Reason = ''SubscriptionsNotReady'',
                     Message = ''Subscriptions are not ready yet, or there are none'',
                     LastTransitionTime = time\<rparr>)"
    using PropagateSubscriptionStatuses_outcome [of now subs ss] by blast
  with notAll show "\<exists>ss' c. PropagateSubscriptionStatuses now (map Some subs) ss = Inr ss'
         \<and> GetCondition ss' SequenceConditionSubscriptionsReady = Some c
         \<and> Status c = ConditionUnknown \<and> Reason c = ''SubscriptionsNotReady''
         \<and> Status c \<noteq> ConditionTrue \<and> Status c \<noteq> ConditionFalse"
    by (simp add: conditionStatuses_distinct del: de_Morgan_conj)
qed

theorem one_false_marks_unknown_witness:
  "(\<exists>ss' c. PropagateChannelStatuses 7
               (map Some [sampleChannel ''c0'' [readyIsTrue] None,
                          sampleChannel ''c1'' [readyIsFalse] None,
                          sampleChannel ''c2'' [readyIsTrue] None]) zeroSequenceStatus = Inr ss'
         \<and> GetCondition ss' SequenceConditionChannelsReady = Some c
         \<and> Status c = ConditionUnknown \<and> Reason c = ''ChannelsNotReady''
         \<and> Status c \<noteq> ConditionTrue \<and> Status c \<noteq> ConditionFalse)
   \<and> (\<exists>ss' c. PropagateSubscriptionStatuses 7
               (map Some [sampleSubscription ''s0'' [readyIsFalse],
                          sampleSubscription ''s1'' [readyIsTrue]]) zeroSequenceStatus = Inr ss'
         \<and> GetCondition ss' SequenceConditionSubscriptionsReady = Some c
         \<and> Status c = ConditionUnknown \<and> Reason c = ''SubscriptionsNotReady''
         \<and> Status c \<noteq> ConditionTrue \<and> Status c \<noteq> ConditionFalse)"
proof -
  let ?chs = "[sampleChannel ''c0'' [readyIsTrue] None, sampleChannel ''c1'' [readyIsFalse] None,
               sampleChannel ''c2'' [readyIsTrue] None]"
  let ?subs = "[sampleSubscription ''s0'' [readyIsFalse], sampleSubscription ''s1'' [readyIsTrue]]"
  have c: "2 \<le> length ?chs \<and> 1 < length ?chs \<and> channelReadyFalse (?chs ! 1)
      \<and> (\<forall>j < length ?chs. j \<noteq> 1 \<longrightarrow> channelReady (?chs ! j))"
    by (simp add: sample_defs less_Suc_eq numeral_3_eq_3)
  have s: "2 \<le> length ?subs \<and> 0 < length ?subs \<and> subscriptionReadyFalse (?subs ! 0)
      \<and> (\<forall>j < length ?subs. j \<noteq> 0 \<longrightarrow> subscriptionReady (?subs ! j))"
    by (simp add: sample_defs less_Suc_eq)
  show ?thesis
    using one_false_marks_unknown [where chs = ?chs and i = 1 and now = 7
          and ss = zeroSequenceStatus and subs = ?subs and k = 0]
      c s
    by blast
qed

text \<open>C4. On an empty list each propagation method leaves its aggregate condition with
  status \<open>Unknown\<close>, not \<open>True\<close>; \<open>PropagateChannelStatuses\<close> on an empty list leaves
  \<open>Address\<close> as it was.\<close>

theorem empty_list_marks_unknown:
  "\<exists>ss1 c1 ss2 c2.
     PropagateChannelStatuses now [] ss = Inr ss1
     \<and> GetCondition ss1 SequenceConditionChannelsReady = Some c1
     \<and> Status c1 = ConditionUnknown \<and> \<not> IsTrue (Some c1)
     \<and> Address ss1 = Address ss
     \<and> PropagateSubscriptionStatuses now [] ss = Inr ss2
     \<and> GetCondition ss2 SequenceConditionSubscriptionsReady = Some c2
     \<and> Status c2 = ConditionUnknown \<and> \<not> IsTrue (Some c2)"
proof -
  obtain ss1 time1 where 1: "PropagateChannelStatuses now (map Some []) ss = Inr ss1"
    "GetCondition ss1 SequenceConditionChannelsReady =
       Some \<lparr>Type = SequenceConditionChannelsReady, Status = ConditionUnknown,
             Reason = ''ChannelsNotReady'',
             Message = ''Channels are not ready yet, or there are none'',
             LastTransitionTime = time1\<rparr>"
    using PropagateChannelStatuses_verdict [of now "[]" ss] by auto
  obtain ss2 time2 where 2: "PropagateSubscriptionStatuses now (map Some []) ss = Inr ss2"
    "GetCondition ss2 SequenceConditionSubscriptionsReady =
       Some \<lparr>Type = SequenceConditionSubscriptionsReady, Status = ConditionUnknown,
             Reason = ''SubscriptionsNotReady'',
             Message = ''Subscriptions are not ready yet, or there are none'',
             LastTransitionTime = time2\<rparr>"
    using PropagateSubscriptionStatuses_outcome [of now "[]" ss] by auto
  have "Address ss1 = Address ss"
    using 1(1) PropagateChannelStatuses_Nil_rest [of now ss] by auto
  with 1 2 show ?thesis
    by (simp add: IsTrue_def conditionStatuses_distinct)
qed

lemma entry_without_ready:
  "Channelable_GetCondition c ConditionReady = None \<Longrightarrow>
   ChannelReadyCondition (channelEntry now c) =
     \<lparr>Type = ConditionReady, Status = ConditionUnknown, Reason = ''NoReady'',
      Message = ''Channel does not have Ready condition'', LastTransitionTime = now\<rparr>
   \<and> \<not> channelReady c"
  "Subscription_GetCondition s SubscriptionConditionReady = None \<Longrightarrow>
   SubscriptionReadyCondition (subscriptionEntry now s) =
     \<lparr>Type = ConditionReady, Status = ConditionUnknown, Reason = ''NoReady'',
      Message = ''Subscription does not have Ready condition'', LastTransitionTime = now\<rparr>
   \<and> \<not> subscriptionReady s"
  by (simp_all add: channelEntry_def subscriptionEntry_def noReadyCondition_def
      channelReady_def subscriptionReady_def IsTrue_def)

text \<open>C5. For a snapshot that has no \<open>Ready\<close> condition, the entry stored at the snapshot's
  index holds the synthesized condition: type \<open>Ready\<close>, status \<open>Unknown\<close>, reason \<open>NoReady\<close>,
  and the message that the child does not have a Ready condition (stamped with the time
  of the call); the aggregate condition gets status \<open>Unknown\<close>, not \<open>True\<close>.\<close>

theorem missing_ready_is_synthesized:
  "(i < length chs \<and> Channelable_GetCondition (chs ! i) ConditionReady = None \<longrightarrow>
      (\<exists>ss' c. PropagateChannelStatuses now (map Some chs) ss = Inr ss'
         \<and> ChannelReadyCondition (ChannelStatuses ss' ! i) =
             \<lparr>Type = ConditionReady, Status = ConditionUnknown, Reason = ''NoReady'',
              Message = ''Channel does not have Ready condition'', LastTransitionTime = now\<rparr>
         \<and> GetCondition ss' SequenceConditionChannelsReady = Some c
         \<and> Status c = ConditionUnknown \<and> \<not> IsTrue (Some c)))
   \<and> (k < length subs \<and> Subscription_GetCondition (subs ! k) SubscriptionConditionReady = None \<longrightarrow>
      (\<exists>ss' c. PropagateSubscriptionStatuses now (map Some subs) ss = Inr ss'
         \<and> SubscriptionReadyCondition (SubscriptionStatuses ss' ! k) =
             \<lparr>Type = ConditionReady, Status = ConditionUnknown, Reason = ''NoReady'',
              Message = ''Subscription does not have Ready condition'', LastTransitionTime = now\<rparr>
         \<and> GetCondition ss' SequenceConditionSubscriptionsReady = Some c
         \<and> Status c = ConditionUnknown \<and> \<not> IsTrue (Some c)))"
proof (intro conjI impI)
  assume h: "i < length chs \<and> Channelable_GetCondition (chs ! i) ConditionReady = None"
  then have notAll: "\<not> (chs \<noteq> [] \<and> list_all channelReady chs)"
    using not_all_ready_nth [of i chs channelReady] entry_without_ready(1) by blast
  obtain ss' time where "PropagateChannelStatuses now (map Some chs) ss = Inr ss'"
    and "ChannelStatuses ss' = map (channelEntry now) chs"
    and "GetCondition ss' SequenceConditionChannelsReady =
         Some (if chs \<noteq> [] \<and> list_all channelReady chs
               then \<lparr>Type = SequenceConditionChannelsReady, Status = ConditionTrue,
                     Reason = [], Message = [], LastTransitionTime = time\<rparr>
               else \<lparr>Type = SequenceConditionChannelsReady, Status = ConditionUnknown,
                     Reason = ''ChannelsNotReady'',
                     Message = ''Channels are not ready yet, or there are none'',
                     LastTransitionTime = time\<rparr>)"
    using PropagateChannelStatuses_verdict [of now chs ss] by blast
  with notAll h show "\<exists>ss' c. PropagateChannelStatuses now (map Some chs) ss = Inr ss'
         \<and> ChannelReadyCondition (ChannelStatuses ss' ! i) =
             \<lparr>Type = ConditionReady, Status = ConditionUnknown, Reason = ''NoReady'',
              Message = ''Channel does not have Ready condition'', LastTransitionTime = now\<rparr>
         \<and> GetCondition ss' SequenceConditionChannelsReady = Some c
         \<and> Status c = ConditionUnknown \<and> \<not> IsTrue (Some c)"
    by (simp add: conditionStatuses_distinct entry_without_ready(1) IsTrue_def
        del: de_Morgan_conj)
next
  assume h: "k < length subs \<and> Subscription_GetCondition (subs ! k) SubscriptionConditionReady = None"
  then have notAll: "\<not> (subs \<noteq> [] \<and> list_all subscriptionReady subs)"
    using not_all_ready_nth [of k subs subscriptionReady] entry_without_ready(2) by blast
  obtain ss' time where "PropagateSubscriptionStatuses now (map Some subs) ss = Inr ss'"
    and "SubscriptionStatuses ss' = map (subscriptionEntry now) subs"
    and "GetCondition ss' SequenceConditionSubscriptionsReady =
         Some (if subs \<noteq> [] \<and> list_all subscriptionReady subs
               then \<lparr>Type = SequenceConditionSubscriptionsReady, Status = ConditionTrue,
                     Reason = [], Message = [], LastTransitionTime = time\<rparr>
               else \<lparr>Type = SequenceConditionSubscriptionsReady, Status = ConditionUnknown,
                     Reason = ''SubscriptionsNotReady'',
                     Message = ''Subscriptions are not ready yet, or there are none'',
                     LastTransitionTime = time\<rparr>)"
    using PropagateSubscriptionStatuses_outcome [of now subs ss] by blast
  with notAll h show "\<exists>ss' c. PropagateSubscriptionStatuses now (map Some subs) ss = Inr ss'
         \<and> SubscriptionReadyCondition (SubscriptionStatuses ss' ! k) =
             \<lparr>Type = ConditionReady, Status = ConditionUnknown, Reason = ''NoReady'',
              Message = ''Subscription does not have Ready condition'', LastTransitionTime = now\<rparr>
         \<and> GetCondition ss' SequenceConditionSubscriptionsReady = Some c
         \<and> Status c = ConditionUnknown \<and> \<not> IsTrue (Some c)"
    by (simp add: conditionStatuses_distinct entry_without_ready(2) IsTrue_def
        del: de_Morgan_conj)
qed

theorem missing_ready_is_synthesized_witness:
  "(\<exists>ss' c. PropagateChannelStatuses 7
               (map Some [sampleChannel ''c0'' [readyIsTrue] None,
                          sampleChannel ''c1'' [] None]) zeroSequenceStatus = Inr ss'
         \<and> ChannelReadyCondition (ChannelStatuses ss' ! 1) =
             \<lparr>Type = ConditionReady, Status = ConditionUnknown, Reason = ''NoReady'',
              Message = ''Channel does not have Ready condition'', LastTransitionTime = 7\<rparr>
         \<and> GetCondition ss' SequenceConditionChannelsReady = Some c
         \<and> Status c = ConditionUnknown \<and> \<not> IsTrue (Some c))
   \<and> (\<exists>ss' c. PropagateSubscriptionStatuses 7
               (map Some [sampleSubscription ''s0'' []]) zeroSequenceStatus = Inr ss'
         \<and> SubscriptionReadyCondition (SubscriptionStatuses ss' ! 0) =
             \<lparr>Type = ConditionReady, Status = ConditionUnknown, Reason = ''NoReady'',
              Message = ''Subscription does not have Ready condition'', LastTransitionTime = 7\<rparr>
         \<and> GetCondition ss' SequenceConditionSubscriptionsReady = Some c
         \<and> Status c = ConditionUnknown \<and> \<not> IsTrue (Some c))"
proof -
  let ?chs = "[sampleChannel ''c0'' [readyIsTrue] None, sampleChannel ''c1'' [] None]"
  let ?subs = "[sampleSubscription ''s0'' []]"
  have c: "1 < length ?chs \<and> Channelable_GetCondition (?chs ! 1) ConditionReady = None"
    by (simp add: sample_defs)
  have s: "0 < length ?subs \<and> Subscription_GetCondition (?subs ! 0) SubscriptionConditionReady = None"
    by (simp add: sample_defs)
  show ?thesis
    using missing_ready_is_synthesized [where chs = ?chs and i = 1 and now = 7
          and ss = zeroSequenceStatus and subs = ?subs and k = 0] c s
    by blast
qed

text \<open>C6. On a non-empty list \<open>PropagateChannelStatuses\<close> takes \<open>Address\<close> and the
  \<open>Addressable\<close> condition from the first channel alone, whatever the other channels
  carry: a nil address or a nil URL gives the empty \<open>Address\<close> and \<open>Addressable\<close> with status
  \<open>Unknown\<close> and reason \<open>emptyAddress\<close>; a URL gives an \<open>Address\<close> of that URL and
  \<open>Addressable\<close> with status \<open>True\<close>.\<close>

theorem address_from_first_channel:
  "\<exists>ss'. PropagateChannelStatuses now (map Some (c # rest)) ss = Inr ss'
     \<and> ((cStatusAddress c = None \<or> (\<exists>a. cStatusAddress c = Some a \<and> URL a = None)) \<longrightarrow>
          Address ss' = zeroAddressable
          \<and> statusOf (GetCondition ss' SequenceConditionAddressable) = Some ConditionUnknown
          \<and> reasonOf (GetCondition ss' SequenceConditionAddressable) = Some ''emptyAddress'')
     \<and> (\<forall>a u. cStatusAddress c = Some a \<and> URL a = Some u \<longrightarrow>
          Address ss' = \<lparr>URL = Some u\<rparr>
          \<and> statusOf (GetCondition ss' SequenceConditionAddressable) = Some ConditionTrue)"
proof -
  obtain ss' where p: "PropagateChannelStatuses now (map Some (c # rest)) ss = Inr ss'"
    and a: "Address ss' = Address (setAddress now (cStatusAddress c) ss)"
    and g: "GetCondition ss' SequenceConditionAddressable
         = GetCondition (setAddress now (cStatusAddress c) ss) SequenceConditionAddressable"
    using PropagateChannelStatuses_Cons_rest [of now c rest ss] by blast
  obtain time where s: "GetCondition (setAddress now (cStatusAddress c) ss) SequenceConditionAddressable =
     Some (if (case cStatusAddress c of None \<Rightarrow> True | Some a \<Rightarrow> URL a = None)
           then \<lparr>Type = SequenceConditionAddressable, Status = ConditionUnknown,
                 Reason = ''emptyAddress'', Message = ''addressable is nil'',
                 LastTransitionTime = time\<rparr>
           else \<lparr>Type = SequenceConditionAddressable, Status = ConditionTrue,
                 Reason = [], Message = [], LastTransitionTime = time\<rparr>)"
    using setAddress_Addressable [of now "cStatusAddress c" ss] by blast
  have "(cStatusAddress c = None \<or> (\<exists>a. cStatusAddress c = Some a \<and> URL a = None)) \<longrightarrow>
          Address ss' = zeroAddressable
          \<and> statusOf (GetCondition ss' SequenceConditionAddressable) = Some ConditionUnknown
          \<and> reasonOf (GetCondition ss' SequenceConditionAddressable) = Some ''emptyAddress''"
    using a g s by (auto simp: setAddress_Address statusOf_def reasonOf_def)
  moreover have "\<forall>a u. cStatusAddress c = Some a \<and> URL a = Some u \<longrightarrow>
          Address ss' = \<lparr>URL = Some u\<rparr>
          \<and> statusOf (GetCondition ss' SequenceConditionAddressable) = Some ConditionTrue"
    using a g s by (auto simp: setAddress_Address statusOf_def)
  ultimately show ?thesis using p by blast
qed

theorem address_from_first_channel_witness:
  "(\<exists>ss'. PropagateChannelStatuses 7
            (map Some [sampleChannel ''c0'' [readyIsTrue] (Some \<lparr>URL = Some ''http://c0.default.svc''\<rparr>),
                       sampleChannel ''c1'' [readyIsTrue] None,
                       sampleChannel ''c2'' [readyIsTrue] None]) zeroSequenceStatus = Inr ss'
      \<and> Address ss' = \<lparr>URL = Some ''http://c0.default.svc''\<rparr>
      \<and> statusOf (GetCondition ss' SequenceConditionAddressable) = Some ConditionTrue)
   \<and> (\<exists>ss'. PropagateChannelStatuses 7
            (map Some [sampleChannel ''c0'' [readyIsTrue] None,
                       sampleChannel ''c1'' [readyIsTrue] (Some \<lparr>URL = Some ''http://c1.default.svc''\<rparr>),
                       sampleChannel ''c2'' [readyIsTrue] (Some \<lparr>URL = Some ''http://c2.default.svc''\<rparr>)])
            zeroSequenceStatus = Inr ss'
      \<and> Address ss' = zeroAddressable
      \<and> statusOf (GetCondition ss' SequenceConditionAddressable) = Some ConditionUnknown
      \<and> reasonOf (GetCondition ss' SequenceConditionAddressable) = Some ''emptyAddress'')"
proof (rule conjI)
  show "\<exists>ss'. PropagateChannelStatuses 7
            (map Some [sampleChannel ''c0'' [readyIsTrue] (Some \<lparr>URL = Some ''http://c0.default.svc''\<rparr>),
                       sampleChannel ''c1'' [readyIsTrue] None,
                       sampleChannel ''c2'' [readyIsTrue] None]) zeroSequenceStatus = Inr ss'
      \<and> Address ss' = \<lparr>URL = Some ''http://c0.default.svc''\<rparr>
      \<and> statusOf (GetCondition ss' SequenceConditionAddressable) = Some ConditionTrue"
    using address_from_first_channel [where now = 7 and ss = zeroSequenceStatus
        and c = "sampleChannel ''c0'' [readyIsTrue] (Some \<lparr>URL = Some ''http://c0.default.svc''\<rparr>)"
        and rest = "[sampleChannel ''c1'' [readyIsTrue] None, sampleChannel ''c2'' [readyIsTrue] None]"]
    by (simp add: sampleChannel_def)
  show "\<exists>ss'. PropagateChannelStatuses 7
            (map Some [sampleChannel ''c0'' [readyIsTrue] None,
                       sampleChannel ''c1'' [readyIsTrue] (Some \<lparr>URL = Some ''http://c1.default.svc''\<rparr>),
                       sampleChannel ''c2'' [readyIsTrue] (Some \<lparr>URL = Some ''http://c2.default.svc''\<rparr>)])
            zeroSequenceStatus = Inr ss'
      \<and> Address ss' = zeroAddressable
      \<and> statusOf (GetCondition ss' SequenceConditionAddressable) = Some ConditionUnknown
      \<and> reasonOf (GetCondition ss' SequenceConditionAddressable) = Some ''emptyAddress''"
    using address_from_first_channel [where now = 7 and ss = zeroSequenceStatus
        and c = "sampleChannel ''c0'' [readyIsTrue] None"
        and rest = "[sampleChannel ''c1'' [readyIsTrue] (Some \<lparr>URL = Some ''http://c1.default.svc''\<rparr>),
                     sampleChannel ''c2'' [readyIsTrue] (Some \<lparr>URL = Some ''http://c2.default.svc''\<rparr>)]"]
    by (simp add: sampleChannel_def)
qed

text \<open>C7. Whatever the status record held before, after a propagation call the statuses
  slice is the list of the entries written for the input, one per snapshot and in the
  input's order: nothing of an earlier, longer or shorter, list is left.\<close>

theorem statuses_rebuilt_from_input:
  "\<exists>ss1 ss2.
     PropagateChannelStatuses now (map Some chs) ss = Inr ss1
     \<and> ChannelStatuses ss1 = map (channelEntry now) chs
     \<and> length (ChannelStatuses ss1) = length chs
     \<and> map Channel (ChannelStatuses ss1) = map channelRef chs
     \<and> PropagateSubscriptionStatuses now (map Some subs) ss = Inr ss2
     \<and> SubscriptionStatuses ss2 = map (subscriptionEntry now) subs
     \<and> length (SubscriptionStatuses ss2) = length subs
     \<and> map Subscription (SubscriptionStatuses ss2) = map subscriptionRef subs"
proof -
  obtain ss1 where 1: "PropagateChannelStatuses now (map Some chs) ss = Inr ss1"
    "ChannelStatuses ss1 = map (channelEntry now) chs"
    using PropagateChannelStatuses_verdict [of now chs ss] by blast
  obtain ss2 where 2: "PropagateSubscriptionStatuses now (map Some subs) ss = Inr ss2"
    "SubscriptionStatuses ss2 = map (subscriptionEntry now) subs"
    using PropagateSubscriptionStatuses_outcome [of now subs ss] by blast
  from 1 2 show ?thesis
    by (simp add: map_Channel_channelEntry map_Subscription_subscriptionEntry del: map_map)
qed

theorem statuses_rebuilt_from_input_witness:
  "\<exists>ss1 ss2.
     PropagateChannelStatuses 7
       (map Some [sampleChannel ''c0'' [readyIsTrue] None, sampleChannel ''c1'' [readyIsTrue] None,
                  sampleChannel ''c2'' [readyIsTrue] None]) zeroSequenceStatus = Inr ss1
     \<and> length (ChannelStatuses ss1) = 3
     \<and> PropagateChannelStatuses 8 (map Some [sampleChannel ''c9'' [readyIsTrue] None]) ss1 = Inr ss2
     \<and> ChannelStatuses ss2 = [channelEntry 8 (sampleChannel ''c9'' [readyIsTrue] None)]"
proof -
  obtain ss1 where 1: "PropagateChannelStatuses 7
       (map Some [sampleChannel ''c0'' [readyIsTrue] None, sampleChannel ''c1'' [readyIsTrue] None,
                  sampleChannel ''c2'' [readyIsTrue] None]) zeroSequenceStatus = Inr ss1"
    "length (ChannelStatuses ss1) = 3"
    using statuses_rebuilt_from_input [of 7 "[sampleChannel ''c0'' [readyIsTrue] None,
        sampleChannel ''c1'' [readyIsTrue] None, sampleChannel ''c2'' [readyIsTrue] None]"
        zeroSequenceStatus "[]"]
    by auto
  obtain ss2 where "PropagateChannelStatuses 8 (map Some [sampleChannel ''c9'' [readyIsTrue] None]) ss1 = Inr ss2"
    "ChannelStatuses ss2 = [channelEntry 8 (sampleChannel ''c9'' [readyIsTrue] None)]"
    using statuses_rebuilt_from_input [of 8 "[sampleChannel ''c9'' [readyIsTrue] None]" ss1 "[]"]
    by auto
  with 1 show ?thesis by blast
qed

text \<open>C10. \<open>PropagateSubscriptionStatuses\<close> leaves \<open>ChannelStatuses\<close>, \<open>Address\<close> and the
  conditions \<open>ChannelsReady\<close> and \<open>Addressable\<close> as they were; \<open>PropagateChannelStatuses\<close>
  leaves \<open>SubscriptionStatuses\<close> and the condition \<open>SubscriptionsReady\<close> as they were; both
  leave the condition \<open>OIDCIdentityCreated\<close> as it was.\<close>

theorem propagation_leaves_the_rest:
  "\<exists>ss1 ss2.
     PropagateSubscriptionStatuses now (map Some subs) ss = Inr ss1
     \<and> ChannelStatuses ss1 = ChannelStatuses ss
     \<and> Address ss1 = Address ss
     \<and> GetCondition ss1 SequenceConditionChannelsReady = GetCondition ss SequenceConditionChannelsReady
     \<and> GetCondition ss1 SequenceConditionAddressable = GetCondition ss SequenceConditionAddressable
     \<and> GetCondition ss1 SequenceConditionOIDCIdentityCreated
         = GetCondition ss SequenceConditionOIDCIdentityCreated
     \<and> PropagateChannelStatuses now (map Some chs) ss = Inr ss2
     \<and> SubscriptionStatuses ss2 = SubscriptionStatuses ss
     \<and> GetCondition ss2 SequenceConditionSubscriptionsReady
         = GetCondition ss SequenceConditionSubscriptionsReady
     \<and> GetCondition ss2 SequenceConditionOIDCIdentityCreated
         = GetCondition ss SequenceConditionOIDCIdentityCreated"
proof -
  obtain ss1 where 1: "PropagateSubscriptionStatuses now (map Some subs) ss = Inr ss1"
    "ChannelStatuses ss1 = ChannelStatuses ss" "Address ss1 = Address ss"
    "\<forall>t. t \<noteq> SequenceConditionSubscriptionsReady \<longrightarrow> t \<noteq> ConditionReady
            \<longrightarrow> GetCondition ss1 t = GetCondition ss t"
    using PropagateSubscriptionStatuses_outcome [of now subs ss] by blast
  obtain ss2 where 2: "PropagateChannelStatuses now (map Some chs) ss = Inr ss2"
    "SubscriptionStatuses ss2 = SubscriptionStatuses ss"
    using PropagateChannelStatuses_verdict [of now chs ss] by blast
  have 3: "GetCondition ss2 SequenceConditionSubscriptionsReady
         = GetCondition ss SequenceConditionSubscriptionsReady
     \<and> GetCondition ss2 SequenceConditionOIDCIdentityCreated
         = GetCondition ss SequenceConditionOIDCIdentityCreated"
  proof (cases chs)
    case Nil
    with 2(1) show ?thesis
      using PropagateChannelStatuses_Nil_rest [of now ss] conditionTypes_distinct by auto
  next
    case (Cons c rest)
    with 2(1) show ?thesis
      using PropagateChannelStatuses_Cons_rest [of now c rest ss] conditionTypes_distinct by auto
  qed
  from 1 2 3 show ?thesis
    using conditionTypes_distinct by simp
qed

section \<open>Two calls in a row\<close>

lemma subscriptionEntry_time:
  "Subscription_GetCondition s SubscriptionConditionReady \<noteq> None
    \<Longrightarrow> subscriptionEntry now2 s = subscriptionEntry now1 s"
  by (auto simp: subscriptionEntry_def)

lemma channelEntry_time:
  "Channelable_GetCondition c ConditionReady \<noteq> None
    \<Longrightarrow> channelEntry now2 c = channelEntry now1 c"
  by (auto simp: channelEntry_def)

lemma Propagate_readyIsAggregate:
  "PropagateChannelStatuses now channels ss = Inr ss' \<Longrightarrow> readyIsAggregate sCondSet (Conditions ss')"
  "PropagateSubscriptionStatuses now subscriptions ss = Inr ss' \<Longrightarrow> readyIsAggregate sCondSet (Conditions ss')"
  by (auto simp: PropagateChannelStatuses_def PropagateSubscriptionStatuses_def
      MarkChannelsNotReady_def MarkSubscriptionsNotReady_def Manage_Mark_defs Let_def
      mark_sub_readyIsAggregate subConditions_def
      split: sum.splits if_splits prod.splits
      simp del: channelsLoop.simps subscriptionsLoop.simps)

lemmas evaluation_defs =
  PropagateSubscriptionStatuses_def PropagateChannelStatuses_def
  MarkChannelsNotReady_def MarkSubscriptionsNotReady_def MarkAddressableNotReady_def
  MarkOIDCIdentityCreatedSucceeded_def MarkOIDCIdentityCreatedSucceededWithReason_def
  MarkOIDCIdentityCreatedFailed_def MarkOIDCIdentityCreatedUnknown_def
  InitializeConditions_def Manage_InitializeConditions_def setAddress_def
  Manage_Mark_defs markCondition_def markConditions_def recomputeHappiness_def
  aggregateStatus_def
  sCondSet_def NewLivingConditionSet_def GetCondition_def Manage_GetCondition_def
  IsReady_def Manage_IsHappy_def
  SequenceConditionReady_def SequenceConditionChannelsReady_def
  SequenceConditionSubscriptionsReady_def SequenceConditionAddressable_def
  SequenceConditionOIDCIdentityCreated_def
  zeroSequenceStatus_def zeroAddressable_def zeroSequenceSubscriptionStatus_def
  zeroSequenceChannelStatus_def zeroObjectReference_def zeroCondition_def
  statusOf_def reasonOf_def Let_def

lemma untimed_entry_time:
  "untimedChannelEntry (channelEntry now2 c) = untimedChannelEntry (channelEntry now1 c)"
  "untimedSubscriptionEntry (subscriptionEntry now2 s) = untimedSubscriptionEntry (subscriptionEntry now1 s)"
  by (simp_all add: untimedChannelEntry_def untimedSubscriptionEntry_def channelEntry_def
      subscriptionEntry_def untimed_def noReadyCondition_def split: option.split)

lemma untimed_same_status:
  "map_option untimed a = map_option untimed b
    \<Longrightarrow> IsTrue a = IsTrue b \<and> IsFalse a = IsFalse b \<and> statusOf a = statusOf b"
proof (cases a; cases b)
  fix x y assume "a = Some x" "b = Some y" "map_option untimed a = map_option untimed b"
  then have "untimed x = untimed y" by simp
  then have "Status (untimed x) = Status (untimed y)" by simp
  then have "Status x = Status y" by (simp add: untimed_def)
  with \<open>a = Some x\<close> \<open>b = Some y\<close> show ?thesis
    by (simp add: IsTrue_def IsFalse_def statusOf_def)
qed simp_all

lemma aggregate_untimed:
  assumes "\<And>t. t \<noteq> ConditionReady \<Longrightarrow>
      map_option untimed (GetCondition ss2 t) = map_option untimed (GetCondition ss1 t)"
  shows "aggregateStatus sCondSet (Conditions ss2) = aggregateStatus sCondSet (Conditions ss1)"
proof -
  have "IsTrue (findCondition t (Conditions ss2)) = IsTrue (findCondition t (Conditions ss1))
      \<and> IsFalse (findCondition t (Conditions ss2)) = IsFalse (findCondition t (Conditions ss1))"
    if "t \<in> set (dependents sCondSet)" for t
  proof -
    from that have "t \<noteq> ConditionReady"
      using happy_not_dependent_sCondSet by (auto simp: happy_sCondSet)
    then have "map_option untimed (findCondition t (Conditions ss2))
        = map_option untimed (findCondition t (Conditions ss1))"
      using assms [of t] by (simp add: GetCondition_def Manage_GetCondition_def)
    then show ?thesis
      using untimed_same_status [of "findCondition t (Conditions ss2)"
          "findCondition t (Conditions ss1)"]
      by blast
  qed
  then show ?thesis
    by (simp add: aggregateStatus_def list_all_iff list_ex_iff)
qed

lemma untimed_verdict:
  "map_option untimed (Some (if b then c\<lparr>LastTransitionTime := x\<rparr> else d\<lparr>LastTransitionTime := x\<rparr>))
     = map_option untimed (Some (if b then c\<lparr>LastTransitionTime := y\<rparr> else d\<lparr>LastTransitionTime := y\<rparr>))"
  by (simp add: untimed_def)

lemma PropagateChannelStatuses_again:
  "\<exists>ss1 ss2.
     PropagateChannelStatuses now1 (map Some chs) ss = Inr ss1
     \<and> PropagateChannelStatuses now2 (map Some chs) ss1 = Inr ss2
     \<and> ChannelStatuses ss1 = map (channelEntry now1) chs
     \<and> ChannelStatuses ss2 = map (channelEntry now2) chs
     \<and> SubscriptionStatuses ss2 = SubscriptionStatuses ss1
     \<and> Address ss2 = Address ss1
     \<and> (\<forall>t. t \<noteq> ConditionReady \<longrightarrow>
           map_option untimed (GetCondition ss2 t) = map_option untimed (GetCondition ss1 t))"
proof -
  obtain ss1 time1 where p1: "PropagateChannelStatuses now1 (map Some chs) ss = Inr ss1"
    and e1: "ChannelStatuses ss1 = map (channelEntry now1) chs"
    and v1: "GetCondition ss1 SequenceConditionChannelsReady =
         Some (if chs \<noteq> [] \<and> list_all channelReady chs
               then \<lparr>Type = SequenceConditionChannelsReady, Status = ConditionTrue,
                     Reason = [], Message = [], LastTransitionTime = time1\<rparr>
               else \<lparr>Type = SequenceConditionChannelsReady, Status = ConditionUnknown,
                     Reason = ''ChannelsNotReady'',
                     Message = ''Channels are not ready yet, or there are none'',
                     LastTransitionTime = time1\<rparr>)"
    using PropagateChannelStatuses_verdict [of now1 chs ss] by blast
  obtain ss2 time2 where p2: "PropagateChannelStatuses now2 (map Some chs) ss1 = Inr ss2"
    and e2: "ChannelStatuses ss2 = map (channelEntry now2) chs"
    and s2: "SubscriptionStatuses ss2 = SubscriptionStatuses ss1"
    and v2: "GetCondition ss2 SequenceConditionChannelsReady =
         Some (if chs \<noteq> [] \<and> list_all channelReady chs
               then \<lparr>Type = SequenceConditionChannelsReady, Status = ConditionTrue,
                     Reason = [], Message = [], LastTransitionTime = time2\<rparr>
               else \<lparr>Type = SequenceConditionChannelsReady, Status = ConditionUnknown,
                     Reason = ''ChannelsNotReady'',
                     Message = ''Channels are not ready yet, or there are none'',
                     LastTransitionTime = time2\<rparr>)"
    using PropagateChannelStatuses_verdict [of now2 chs ss1] by blast
  have cr: "map_option untimed (GetCondition ss2 SequenceConditionChannelsReady)
      = map_option untimed (GetCondition ss1 SequenceConditionChannelsReady)"
    by (simp add: v1 v2 untimed_def)
  have rest: "Address ss2 = Address ss1
      \<and> (\<forall>t. t \<noteq> ConditionReady \<longrightarrow> t \<noteq> SequenceConditionChannelsReady \<longrightarrow>
           map_option untimed (GetCondition ss2 t) = map_option untimed (GetCondition ss1 t))"
  proof (cases chs)
    case Nil
    obtain ss' where "PropagateChannelStatuses now2 [] ss1 = Inr ss'"
      and "Address ss' = Address ss1"
      and "\<forall>t. t \<noteq> SequenceConditionChannelsReady \<longrightarrow> t \<noteq> ConditionReady
            \<longrightarrow> GetCondition ss' t = GetCondition ss1 t"
      using PropagateChannelStatuses_Nil_rest [of now2 ss1] by blast
    moreover from Nil p2 have "PropagateChannelStatuses now2 [] ss1 = Inr ss2" by simp
    ultimately show ?thesis by simp
  next
    case (Cons c rest)
    obtain r1 where r1: "PropagateChannelStatuses now1 (map Some (c # rest)) ss = Inr r1"
      and a1: "Address r1 = Address (setAddress now1 (cStatusAddress c) ss)"
      and g1: "GetCondition r1 SequenceConditionAddressable
         = GetCondition (setAddress now1 (cStatusAddress c) ss) SequenceConditionAddressable"
      using PropagateChannelStatuses_Cons_rest [of now1 c rest ss] by blast
    from r1 Cons p1 have [simp]: "r1 = ss1" by simp
    obtain r2 where r2: "PropagateChannelStatuses now2 (map Some (c # rest)) ss1 = Inr r2"
      and a2: "Address r2 = Address (setAddress now2 (cStatusAddress c) ss1)"
      and g2: "GetCondition r2 SequenceConditionAddressable
         = GetCondition (setAddress now2 (cStatusAddress c) ss1) SequenceConditionAddressable"
      and o2: "\<forall>t. t \<noteq> SequenceConditionChannelsReady \<longrightarrow> t \<noteq> SequenceConditionAddressable
            \<longrightarrow> t \<noteq> ConditionReady \<longrightarrow> GetCondition r2 t = GetCondition ss1 t"
      using PropagateChannelStatuses_Cons_rest [of now2 c rest ss1] by blast
    from r2 Cons p2 have [simp]: "r2 = ss2" by simp
    obtain t1 where u1: "GetCondition (setAddress now1 (cStatusAddress c) ss) SequenceConditionAddressable =
       Some (if (case cStatusAddress c of None \<Rightarrow> True | Some a \<Rightarrow> URL a = None)
           then \<lparr>Type = SequenceConditionAddressable, Status = ConditionUnknown,
                 Reason = ''emptyAddress'', Message = ''addressable is nil'',
                 LastTransitionTime = t1\<rparr>
           else \<lparr>Type = SequenceConditionAddressable, Status = ConditionTrue,
                 Reason = [], Message = [], LastTransitionTime = t1\<rparr>)"
      using setAddress_Addressable [of now1 "cStatusAddress c" ss] by blast
    obtain t2 where u2: "GetCondition (setAddress now2 (cStatusAddress c) ss1) SequenceConditionAddressable =
       Some (if (case cStatusAddress c of None \<Rightarrow> True | Some a \<Rightarrow> URL a = None)
           then \<lparr>Type = SequenceConditionAddressable, Status = ConditionUnknown,
                 Reason = ''emptyAddress'', Message = ''addressable is nil'',
                 LastTransitionTime = t2\<rparr>
           else \<lparr>Type = SequenceConditionAddressable, Status = ConditionTrue,
                 Reason = [], Message = [], LastTransitionTime = t2\<rparr>)"
      using setAddress_Addressable [of now2 "cStatusAddress c" ss1] by blast
    have ad: "map_option untimed (GetCondition ss2 SequenceConditionAddressable)
        = map_option untimed (GetCondition ss1 SequenceConditionAddressable)"
      using g1 g2 by (simp add: u1 u2 untimed_def)
    have "Address ss2 = Address ss1"
      using a1 a2 by (simp add: setAddress_Address)
    moreover have "map_option untimed (GetCondition ss2 t) = map_option untimed (GetCondition ss1 t)"
      if "t \<noteq> ConditionReady" "t \<noteq> SequenceConditionChannelsReady" for t
    proof (cases "t = SequenceConditionAddressable")
      case True
      with ad show ?thesis by simp
    next
      case False
      with that o2 show ?thesis by simp
    qed
    ultimately show ?thesis by simp
  qed
  have "map_option untimed (GetCondition ss2 t) = map_option untimed (GetCondition ss1 t)"
    if "t \<noteq> ConditionReady" for t
  proof (cases "t = SequenceConditionChannelsReady")
    case True
    with cr show ?thesis by simp
  next
    case False
    with that rest show ?thesis by simp
  qed
  with p1 p2 e1 e2 s2 rest show ?thesis by blast
qed

lemma PropagateSubscriptionStatuses_again:
  "\<exists>ss1 ss2.
     PropagateSubscriptionStatuses now1 (map Some subs) ss = Inr ss1
     \<and> PropagateSubscriptionStatuses now2 (map Some subs) ss1 = Inr ss2
     \<and> SubscriptionStatuses ss1 = map (subscriptionEntry now1) subs
     \<and> SubscriptionStatuses ss2 = map (subscriptionEntry now2) subs
     \<and> ChannelStatuses ss2 = ChannelStatuses ss1
     \<and> Address ss2 = Address ss1
     \<and> (\<forall>t. t \<noteq> ConditionReady \<longrightarrow>
           map_option untimed (GetCondition ss2 t) = map_option untimed (GetCondition ss1 t))"
proof -
  obtain ss1 time1 where p1: "PropagateSubscriptionStatuses now1 (map Some subs) ss = Inr ss1"
    and e1: "SubscriptionStatuses ss1 = map (subscriptionEntry now1) subs"
    and v1: "GetCondition ss1 SequenceConditionSubscriptionsReady =
         Some (if subs \<noteq> [] \<and> list_all subscriptionReady subs
               then \<lparr>Type = SequenceConditionSubscriptionsReady, Status = ConditionTrue,
                     Reason = [], Message = [], LastTransitionTime = time1\<rparr>
               else \<lparr>Type = SequenceConditionSubscriptionsReady, Status = ConditionUnknown,
                     Reason = ''SubscriptionsNotReady'',
                     Message = ''Subscriptions are not ready yet, or there are none'',
                     LastTransitionTime = time1\<rparr>)"
    using PropagateSubscriptionStatuses_outcome [of now1 subs ss] by blast
  obtain ss2 time2 where p2: "PropagateSubscriptionStatuses now2 (map Some subs) ss1 = Inr ss2"
    and e2: "SubscriptionStatuses ss2 = map (subscriptionEntry now2) subs"
    and c2: "ChannelStatuses ss2 = ChannelStatuses ss1"
    and a2: "Address ss2 = Address ss1"
    and v2: "GetCondition ss2 SequenceConditionSubscriptionsReady =
         Some (if subs \<noteq> [] \<and> list_all subscriptionReady subs
               then \<lparr>Type = SequenceConditionSubscriptionsReady, Status = ConditionTrue,
                     Reason = [], Message = [], LastTransitionTime = time2\<rparr>
               else \<lparr>Type = SequenceConditionSubscriptionsReady, Status = ConditionUnknown,
                     Reason = ''SubscriptionsNotReady'',
                     Message = ''Subscriptions are not ready yet, or there are none'',
                     LastTransitionTime = time2\<rparr>)"
    and o2: "\<forall>t. t \<noteq> SequenceConditionSubscriptionsReady \<longrightarrow> t \<noteq> ConditionReady
            \<longrightarrow> GetCondition ss2 t = GetCondition ss1 t"
    using PropagateSubscriptionStatuses_outcome [of now2 subs ss1] by blast
  have "map_option untimed (GetCondition ss2 SequenceConditionSubscriptionsReady)
      = map_option untimed (GetCondition ss1 SequenceConditionSubscriptionsReady)"
    by (simp add: v1 v2 untimed_def)
  then have "map_option untimed (GetCondition ss2 t) = map_option untimed (GetCondition ss1 t)"
    if "t \<noteq> ConditionReady" for t
    using that o2 by (cases "t = SequenceConditionSubscriptionsReady") simp_all
  with p1 p2 e1 e2 c2 a2 show ?thesis by blast
qed

text \<open>C9, as stated, fails: a subscription without a \<open>Ready\<close> condition gets a synthesized
  condition stamped with the time of the call (line 116), so a second call at a later
  time stores another per-entry condition than the first call did.\<close>

theorem second_call_differs:
  "PropagateSubscriptionStatuses 1 [Some (sampleSubscription ''s0'' [])] zeroSequenceStatus
     = Inr statusAfterFirstCall
   \<and> PropagateSubscriptionStatuses 2 [Some (sampleSubscription ''s0'' [])] statusAfterFirstCall
     \<noteq> Inr statusAfterFirstCall"
  by (simp add: evaluation_defs sample_defs statusAfterFirstCall_def)

text \<open>C9, amended. After a second call with the same input the status record agrees with
  the record after the first call up to time stamps. The statuses slice of the call's
  kind has the same entries up to the time stamp of the per-entry ready condition, and
  is the same slice when every snapshot has a \<open>Ready\<close> condition; the other slice and
  \<open>Address\<close> are the same; every condition other than \<open>Ready\<close> is the same up to its time
  stamp; every condition, \<open>Ready\<close> included, has the same status. Nothing is said of the
  time stamps of the conditions, nor of the reason and message of \<open>Ready\<close>.\<close>

theorem second_call_agrees_up_to_time_stamps:
  "\<exists>ss1 ss2 ss3 ss4.
     PropagateChannelStatuses now1 (map Some chs) ss = Inr ss1
     \<and> PropagateChannelStatuses now2 (map Some chs) ss1 = Inr ss2
     \<and> map untimedChannelEntry (ChannelStatuses ss2) = map untimedChannelEntry (ChannelStatuses ss1)
     \<and> (list_all channelHasReady chs \<longrightarrow> ChannelStatuses ss2 = ChannelStatuses ss1)
     \<and> SubscriptionStatuses ss2 = SubscriptionStatuses ss1
     \<and> Address ss2 = Address ss1
     \<and> (\<forall>t. t \<noteq> SequenceConditionReady \<longrightarrow>
           map_option untimed (GetCondition ss2 t) = map_option untimed (GetCondition ss1 t))
     \<and> (\<forall>t. statusOf (GetCondition ss2 t) = statusOf (GetCondition ss1 t))
     \<and> PropagateSubscriptionStatuses now1 (map Some subs) ss = Inr ss3
     \<and> PropagateSubscriptionStatuses now2 (map Some subs) ss3 = Inr ss4
     \<and> map untimedSubscriptionEntry (SubscriptionStatuses ss4)
         = map untimedSubscriptionEntry (SubscriptionStatuses ss3)
     \<and> (list_all subscriptionHasReady subs \<longrightarrow> SubscriptionStatuses ss4 = SubscriptionStatuses ss3)
     \<and> ChannelStatuses ss4 = ChannelStatuses ss3
     \<and> Address ss4 = Address ss3
     \<and> (\<forall>t. t \<noteq> SequenceConditionReady \<longrightarrow>
           map_option untimed (GetCondition ss4 t) = map_option untimed (GetCondition ss3 t))
     \<and> (\<forall>t. statusOf (GetCondition ss4 t) = statusOf (GetCondition ss3 t))"
proof -
  have statuses: "\<forall>t. statusOf (GetCondition b t) = statusOf (GetCondition a t)"
    if u: "\<forall>t. t \<noteq> ConditionReady \<longrightarrow>
           map_option untimed (GetCondition b t) = map_option untimed (GetCondition a t)"
      and ra: "readyIsAggregate sCondSet (Conditions a)"
      and rb: "readyIsAggregate sCondSet (Conditions b)" for a b
  proof
    fix t
    show "statusOf (GetCondition b t) = statusOf (GetCondition a t)"
    proof (cases "t = ConditionReady")
      case True
      have "aggregateStatus sCondSet (Conditions b) = aggregateStatus sCondSet (Conditions a)"
        using u by (intro aggregate_untimed) simp
      with True show ?thesis
        using readyIsAggregate_status [OF ra] readyIsAggregate_status [OF rb]
        by (simp add: SequenceConditionReady_def)
    next
      case False
      with u show ?thesis
        using untimed_same_status [of "GetCondition b t" "GetCondition a t"] by blast
    qed
  qed
  obtain ss1 ss2 where c: "PropagateChannelStatuses now1 (map Some chs) ss = Inr ss1"
    "PropagateChannelStatuses now2 (map Some chs) ss1 = Inr ss2"
    "ChannelStatuses ss1 = map (channelEntry now1) chs"
    "ChannelStatuses ss2 = map (channelEntry now2) chs"
    "SubscriptionStatuses ss2 = SubscriptionStatuses ss1"
    "Address ss2 = Address ss1"
    and cu: "\<forall>t. t \<noteq> ConditionReady \<longrightarrow>
           map_option untimed (GetCondition ss2 t) = map_option untimed (GetCondition ss1 t)"
    using PropagateChannelStatuses_again [of now1 chs ss now2] by blast
  have cs: "\<forall>t. statusOf (GetCondition ss2 t) = statusOf (GetCondition ss1 t)"
    using cu Propagate_readyIsAggregate(1) [OF c(1)] Propagate_readyIsAggregate(1) [OF c(2)]
    by (rule statuses)
  have ce: "map untimedChannelEntry (ChannelStatuses ss2) = map untimedChannelEntry (ChannelStatuses ss1)"
    by (simp add: c(3,4) untimed_entry_time(1) [of now2 _ now1])
  have ch: "list_all channelHasReady chs \<longrightarrow> ChannelStatuses ss2 = ChannelStatuses ss1"
    by (auto simp: c(3,4) list_all_iff channelHasReady_def channelEntry_time)
  obtain ss3 ss4 where s: "PropagateSubscriptionStatuses now1 (map Some subs) ss = Inr ss3"
    "PropagateSubscriptionStatuses now2 (map Some subs) ss3 = Inr ss4"
    "SubscriptionStatuses ss3 = map (subscriptionEntry now1) subs"
    "SubscriptionStatuses ss4 = map (subscriptionEntry now2) subs"
    "ChannelStatuses ss4 = ChannelStatuses ss3"
    "Address ss4 = Address ss3"
    and su: "\<forall>t. t \<noteq> ConditionReady \<longrightarrow>
           map_option untimed (GetCondition ss4 t) = map_option untimed (GetCondition ss3 t)"
    using PropagateSubscriptionStatuses_again [of now1 subs ss now2] by blast
  have sst: "\<forall>t. statusOf (GetCondition ss4 t) = statusOf (GetCondition ss3 t)"
    using su Propagate_readyIsAggregate(2) [OF s(1)] Propagate_readyIsAggregate(2) [OF s(2)]
    by (rule statuses)
  have se: "map untimedSubscriptionEntry (SubscriptionStatuses ss4)
         = map untimedSubscriptionEntry (SubscriptionStatuses ss3)"
    by (simp add: s(3,4) untimed_entry_time(2) [of now2 _ now1])
  have sh: "list_all subscriptionHasReady subs \<longrightarrow> SubscriptionStatuses ss4 = SubscriptionStatuses ss3"
    by (auto simp: s(3,4) list_all_iff subscriptionHasReady_def subscriptionEntry_time)
  from cu su have cu': "\<forall>t. t \<noteq> SequenceConditionReady \<longrightarrow>
           map_option untimed (GetCondition ss2 t) = map_option untimed (GetCondition ss1 t)"
    and su': "\<forall>t. t \<noteq> SequenceConditionReady \<longrightarrow>
           map_option untimed (GetCondition ss4 t) = map_option untimed (GetCondition ss3 t)"
    by (simp_all add: SequenceConditionReady_def)
  show ?thesis
    apply (rule exI [of _ ss1], rule exI [of _ ss2], rule exI [of _ ss3], rule exI [of _ ss4])
    using c(1,2,5,6) ce ch cu' cs s(1,2,5,6) se sh su' sst
    apply (intro conjI)
    apply assumption+
    done
qed

theorem second_call_agrees_up_to_time_stamps_witness:
  "\<exists>ss1 ss2 ss3 ss4.
     PropagateChannelStatuses 1 (map Some [sampleChannel ''c0'' [readyIsFalse] None]) zeroSequenceStatus = Inr ss1
     \<and> PropagateChannelStatuses 2 (map Some [sampleChannel ''c0'' [readyIsFalse] None]) ss1 = Inr ss2
     \<and> ChannelStatuses ss2 = ChannelStatuses ss1
     \<and> Address ss2 = Address ss1
     \<and> map_option untimed (GetCondition ss2 SequenceConditionChannelsReady)
         = map_option untimed (GetCondition ss1 SequenceConditionChannelsReady)
     \<and> map_option untimed (GetCondition ss2 SequenceConditionAddressable)
         = map_option untimed (GetCondition ss1 SequenceConditionAddressable)
     \<and> statusOf (GetCondition ss2 SequenceConditionReady)
         = statusOf (GetCondition ss1 SequenceConditionReady)
     \<and> PropagateSubscriptionStatuses 1 (map Some [sampleSubscription ''s0'' []]) zeroSequenceStatus = Inr ss3
     \<and> PropagateSubscriptionStatuses 2 (map Some [sampleSubscription ''s0'' []]) ss3 = Inr ss4
     \<and> map untimedSubscriptionEntry (SubscriptionStatuses ss4)
         = map untimedSubscriptionEntry (SubscriptionStatuses ss3)
     \<and> map_option untimed (GetCondition ss4 SequenceConditionSubscriptionsReady)
         = map_option untimed (GetCondition ss3 SequenceConditionSubscriptionsReady)
     \<and> statusOf (GetCondition ss4 SequenceConditionReady)
         = statusOf (GetCondition ss3 SequenceConditionReady)"
proof -
  have h: "list_all channelHasReady [sampleChannel ''c0'' [readyIsFalse] None]"
    by (simp add: channelHasReady_def sample_defs)
  have n: "SequenceConditionChannelsReady \<noteq> SequenceConditionReady"
    "SequenceConditionAddressable \<noteq> SequenceConditionReady"
    "SequenceConditionSubscriptionsReady \<noteq> SequenceConditionReady"
    using conditionTypes_distinct(1-3) by (simp_all add: SequenceConditionReady_def)
  obtain ss1 ss2 ss3 ss4 where
    "PropagateChannelStatuses 1 (map Some [sampleChannel ''c0'' [readyIsFalse] None]) zeroSequenceStatus = Inr ss1"
    "PropagateChannelStatuses 2 (map Some [sampleChannel ''c0'' [readyIsFalse] None]) ss1 = Inr ss2"
    "list_all channelHasReady [sampleChannel ''c0'' [readyIsFalse] None]
       \<longrightarrow> ChannelStatuses ss2 = ChannelStatuses ss1"
    "Address ss2 = Address ss1"
    "\<forall>t. t \<noteq> SequenceConditionReady \<longrightarrow>
           map_option untimed (GetCondition ss2 t) = map_option untimed (GetCondition ss1 t)"
    "\<forall>t. statusOf (GetCondition ss2 t) = statusOf (GetCondition ss1 t)"
    "PropagateSubscriptionStatuses 1 (map Some [sampleSubscription ''s0'' []]) zeroSequenceStatus = Inr ss3"
    "PropagateSubscriptionStatuses 2 (map Some [sampleSubscription ''s0'' []]) ss3 = Inr ss4"
    "map untimedSubscriptionEntry (SubscriptionStatuses ss4)
         = map untimedSubscriptionEntry (SubscriptionStatuses ss3)"
    "\<forall>t. t \<noteq> SequenceConditionReady \<longrightarrow>
           map_option untimed (GetCondition ss4 t) = map_option untimed (GetCondition ss3 t)"
    "\<forall>t. statusOf (GetCondition ss4 t) = statusOf (GetCondition ss3 t)"
    using second_call_agrees_up_to_time_stamps [of 1 "[sampleChannel ''c0'' [readyIsFalse] None]"
        zeroSequenceStatus 2 "[sampleSubscription ''s0'' []]"]
    by blast
  note facts = this
  show ?thesis
    apply (rule exI [of _ ss1], rule exI [of _ ss2], rule exI [of _ ss3], rule exI [of _ ss4])
    using facts h n
    apply simp
    done
qed

section \<open>Initializing\<close>

lemma findCondition_append:
  "findCondition t (xs @ [c]) =
     (case findCondition t xs of Some x \<Rightarrow> Some x
      | None \<Rightarrow> if Type c = t then Some c else None)"
  by (induction xs) auto

lemma findCondition_initializeMissing:
  "findCondition t (initializeMissing now ts conds) =
     (case findCondition t conds of
        Some c \<Rightarrow> Some c
      | None \<Rightarrow> if t \<in> set ts
                then Some \<lparr>Type = t, Status = ConditionUnknown, Reason = [], Message = [],
                           LastTransitionTime = now\<rparr>
                else None)"
proof (induction ts arbitrary: conds)
  case Nil
  show ?case by (simp split: option.split)
next
  case (Cons u ts)
  show ?case
    by (cases "findCondition u conds"; cases "findCondition t conds")
      (auto simp: Cons.IH findCondition_append)
qed

lemma initializeMissing_IsTrue_IsFalse:
  "IsTrue (findCondition t (initializeMissing now ts conds)) = IsTrue (findCondition t conds)"
  "IsFalse (findCondition t (initializeMissing now ts conds)) = IsFalse (findCondition t conds)"
  using conditionStatuses_distinct
  by (auto simp: findCondition_initializeMissing IsTrue_def IsFalse_def split: option.splits)

lemma initializeMissing_aggregate:
  "aggregateStatus cset (initializeMissing now ts conds) = aggregateStatus cset conds"
  by (simp add: aggregateStatus_def initializeMissing_IsTrue_IsFalse)

lemma InitializeConditions_frame:
  "Address (InitializeConditions now ss) = Address ss"
  "SubscriptionStatuses (InitializeConditions now ss) = SubscriptionStatuses ss"
  "ChannelStatuses (InitializeConditions now ss) = ChannelStatuses ss"
  by (simp_all add: InitializeConditions_def Manage_InitializeConditions_def)

lemma InitializeConditions_IsFalse:
  "IsFalse (GetCondition (InitializeConditions now ss) t) = IsFalse (GetCondition ss t)"
  by (simp add: InitializeConditions_def Manage_InitializeConditions_def GetCondition_def
      Manage_GetCondition_def initializeMissing_IsTrue_IsFalse del: initializeMissing.simps)

section \<open>Calls that return\<close>

lemma no_nil_entries:
  "None \<notin> set xs \<Longrightarrow> \<exists>ys. xs = map Some ys"
proof (induction xs)
  case Nil
  then show ?case by simp
next
  case (Cons x xs)
  from Cons.prems obtain y where "x = Some y" by (cases x) auto
  moreover from Cons obtain ys where "xs = map Some ys" by auto
  ultimately have "x # xs = map Some (y # ys)" by simp
  then show ?case by (rule exI)
qed

lemma PropagateChannelStatuses_returns:
  "PropagateChannelStatuses now channels ss = Inr ss' \<Longrightarrow> \<exists>chs. channels = map Some chs"
  using PropagateChannelStatuses_nil_entry [of channels now ss] no_nil_entries [of channels]
  by auto

lemma PropagateSubscriptionStatuses_returns:
  "PropagateSubscriptionStatuses now subscriptions ss = Inr ss' \<Longrightarrow> \<exists>subs. subscriptions = map Some subs"
  using PropagateSubscriptionStatuses_nil_entry [of subscriptions now ss]
    no_nil_entries [of subscriptions]
  by auto

section \<open>Writers of the address\<close>

lemma setAddress_not_False:
  "\<not> IsFalse (GetCondition (setAddress now address ss) SequenceConditionAddressable)"
  using setAddress_Addressable [of now address ss] conditionStatuses_distinct
  by (auto simp: IsFalse_def split: if_splits)

lemma applyOperation_Address:
  assumes "applyOperation now op ss = Inr ss'" and "\<not> reachesSetAddress op"
  shows "Address ss' = Address ss"
proof (cases op)
  case (OpPropagateSubscriptionStatuses subscriptions)
  with assms(1) obtain subs where "subscriptions = map Some subs"
    using PropagateSubscriptionStatuses_returns [of now subscriptions ss ss'] by auto
  with assms(1) OpPropagateSubscriptionStatuses show ?thesis
    using PropagateSubscriptionStatuses_outcome [of now subs ss] by auto
next
  case (OpPropagateChannelStatuses channels)
  with assms show ?thesis
    using PropagateChannelStatuses_Nil_rest [of now ss] by auto
qed (use assms in \<open>auto simp: InitializeConditions_frame Mark_frame MarkChannelsNotReady_def
      MarkSubscriptionsNotReady_def MarkAddressableNotReady_def
      MarkOIDCIdentityCreatedSucceeded_def MarkOIDCIdentityCreatedSucceededWithReason_def
      MarkOIDCIdentityCreatedFailed_def MarkOIDCIdentityCreatedUnknown_def\<close>)

lemma applyOperation_Addressable:
  assumes "applyOperation now op ss = Inr ss'" and "\<not> writesAddressableCondition op"
  shows "GetCondition ss' SequenceConditionAddressable = GetCondition ss SequenceConditionAddressable"
proof (cases op)
  case (OpPropagateSubscriptionStatuses subscriptions)
  with assms(1) obtain subs where "subscriptions = map Some subs"
    using PropagateSubscriptionStatuses_returns [of now subscriptions ss ss'] by auto
  with assms(1) OpPropagateSubscriptionStatuses show ?thesis
    using PropagateSubscriptionStatuses_outcome [of now subs ss] conditionTypes_distinct by auto
next
  case (OpPropagateChannelStatuses channels)
  with assms show ?thesis
    using PropagateChannelStatuses_Nil_rest [of now ss] conditionTypes_distinct by auto
qed (use assms conditionTypes_distinct in \<open>auto simp: Mark_other MarkChannelsNotReady_def
      MarkSubscriptionsNotReady_def
      MarkOIDCIdentityCreatedSucceeded_def MarkOIDCIdentityCreatedSucceededWithReason_def
      MarkOIDCIdentityCreatedFailed_def MarkOIDCIdentityCreatedUnknown_def\<close>)

lemma applyOperation_Addressable_False:
  assumes "applyOperation now op ss = Inr ss'"
    and "IsFalse (GetCondition ss' SequenceConditionAddressable)"
  shows "IsFalse (GetCondition ss SequenceConditionAddressable)"
proof (cases "writesAddressableCondition op")
  case False
  with assms show ?thesis using applyOperation_Addressable by simp
next
  case True
  show ?thesis
  proof (cases op)
    case OpInitializeConditions
    with assms show ?thesis by (auto simp: InitializeConditions_IsFalse)
  next
    case (OpPropagateChannelStatuses channels)
    with True obtain chs c rest where "channels = map Some (c # rest)"
      using assms(1) PropagateChannelStatuses_returns [of now channels ss ss']
      by (cases channels) auto
    with assms OpPropagateChannelStatuses show ?thesis
      using PropagateChannelStatuses_Cons_rest [of now c rest ss]
        setAddress_not_False [of now "cStatusAddress c" ss]
      by auto
  next
    case (OpMarkAddressableNotReady reason message)
    with assms show ?thesis
      using MarkUnknown_same [OF conditionTypes_distinct(3), of now reason message ss]
        conditionStatuses_distinct
      by (auto simp: MarkAddressableNotReady_def IsFalse_def)
  next
    case (OpSetAddress address)
    with assms show ?thesis using setAddress_not_False [of now address ss] by auto
  qed (use True in auto)
qed

lemma runOperations_Addressable_not_False:
  "\<not> IsFalse (GetCondition ss SequenceConditionAddressable) \<Longrightarrow> runOperations ops ss = Inr ss'
    \<Longrightarrow> \<not> IsFalse (GetCondition ss' SequenceConditionAddressable)"
proof (induction ops arbitrary: ss)
  case Nil
  then show ?case by simp
next
  case (Cons x ops)
  obtain now op where x: "x = (now, op)" by (cases x)
  with Cons.prems(2) obtain ss1 where 1: "applyOperation now op ss = Inr ss1"
    and 2: "runOperations ops ss1 = Inr ss'"
    by (auto split: sum.splits)
  have "\<not> IsFalse (GetCondition ss1 SequenceConditionAddressable)"
    using applyOperation_Addressable_False [OF 1] Cons.prems(1) by blast
  then show ?case using 2 by (rule Cons.IH)
qed

text \<open>C8, as stated, fails: \<open>MarkAddressableNotReady\<close> (lines 185-187) writes the
  \<open>Addressable\<close> condition without going through \<open>setAddress\<close>.\<close>

theorem addressable_written_outside_setAddress:
  "\<not> reachesSetAddress (OpMarkAddressableNotReady ''Pending'' ''waiting'')
   \<and> GetCondition zeroSequenceStatus SequenceConditionAddressable = None
   \<and> applyOperation 1 (OpMarkAddressableNotReady ''Pending'' ''waiting'') zeroSequenceStatus
       = Inr (MarkAddressableNotReady 1 ''Pending'' ''waiting'' zeroSequenceStatus)
   \<and> GetCondition (MarkAddressableNotReady 1 ''Pending'' ''waiting'' zeroSequenceStatus)
         SequenceConditionAddressable
       = Some \<lparr>Type = ''Addressable'', Status = ''Unknown'', Reason = ''Pending'',
               Message = ''waiting'', LastTransitionTime = 1\<rparr>"
  by (simp add: evaluation_defs ConditionUnknown_def ConditionReady_def)

text \<open>C8, amended. \<open>Address\<close> is written only by a call that reaches \<open>setAddress\<close>. The
  \<open>Addressable\<close> condition is written only by a call that reaches \<open>setAddress\<close>, by
  \<open>MarkAddressableNotReady\<close> and by \<open>InitializeConditions\<close>. No call gives the \<open>Addressable\<close>
  condition the status \<open>False\<close>: it has that status after a call only if it had it before,
  and never in a status record built from the zero record by calls of this file.\<close>

theorem address_writers:
  "(applyOperation now op ss = Inr ss' \<longrightarrow>
      (\<not> reachesSetAddress op \<longrightarrow> Address ss' = Address ss)
      \<and> (\<not> writesAddressableCondition op \<longrightarrow>
           GetCondition ss' SequenceConditionAddressable
             = GetCondition ss SequenceConditionAddressable)
      \<and> (IsFalse (GetCondition ss' SequenceConditionAddressable) \<longrightarrow>
           IsFalse (GetCondition ss SequenceConditionAddressable)))
   \<and> (runOperations ops zeroSequenceStatus = Inr final \<longrightarrow>
        \<not> IsFalse (GetCondition final SequenceConditionAddressable))"
proof -
  have "\<not> IsFalse (GetCondition zeroSequenceStatus SequenceConditionAddressable)"
    by (simp add: zeroSequenceStatus_def GetCondition_def Manage_GetCondition_def IsFalse_def)
  then have "runOperations ops zeroSequenceStatus = Inr final \<longrightarrow>
        \<not> IsFalse (GetCondition final SequenceConditionAddressable)"
    using runOperations_Addressable_not_False by blast
  then show ?thesis
    using applyOperation_Address [of now op ss ss'] applyOperation_Addressable [of now op ss ss']
      applyOperation_Addressable_False [of now op ss ss']
    by blast
qed

theorem address_writers_witness:
  "Address (MarkOIDCIdentityCreatedFailed 5 ''Denied'' ''no token'' statusAfterFirstCall)
     = Address statusAfterFirstCall
   \<and> GetCondition (MarkOIDCIdentityCreatedFailed 5 ''Denied'' ''no token'' statusAfterFirstCall)
       SequenceConditionAddressable
     = GetCondition statusAfterFirstCall SequenceConditionAddressable
   \<and> (\<exists>final. runOperations
         [(1, OpInitializeConditions),
          (2, OpPropagateChannelStatuses [Some (sampleChannel ''c0'' [readyIsFalse] None)]),
          (3, OpMarkAddressableNotReady ''Pending'' ''waiting''),
          (4, OpMarkOIDCIdentityCreatedFailed ''Denied'' ''no token'')] zeroSequenceStatus = Inr final
        \<and> \<not> IsFalse (GetCondition final SequenceConditionAddressable))"
proof -
  let ?ops = "[(1, OpInitializeConditions),
          (2, OpPropagateChannelStatuses [Some (sampleChannel ''c0'' [readyIsFalse] None)]),
          (3, OpMarkAddressableNotReady ''Pending'' ''waiting''),
          (4, OpMarkOIDCIdentityCreatedFailed ''Denied'' ''no token'')]"
  have a: "applyOperation 5 (OpMarkOIDCIdentityCreatedFailed ''Denied'' ''no token'') statusAfterFirstCall
      = Inr (MarkOIDCIdentityCreatedFailed 5 ''Denied'' ''no token'' statusAfterFirstCall)"
    by simp
  have b: "\<not> reachesSetAddress (OpMarkOIDCIdentityCreatedFailed ''Denied'' ''no token'')"
    "\<not> writesAddressableCondition (OpMarkOIDCIdentityCreatedFailed ''Denied'' ''no token'')"
    by simp_all
  obtain final where r: "runOperations ?ops zeroSequenceStatus = Inr final"
    by (simp add: evaluation_defs sample_defs)
  show ?thesis
    using address_writers [of 5 "OpMarkOIDCIdentityCreatedFailed ''Denied'' ''no token''"
        statusAfterFirstCall
        "MarkOIDCIdentityCreatedFailed 5 ''Denied'' ''no token'' statusAfterFirstCall"
        ?ops final] a b r
    by blast
qed

section \<open>The stored aggregate along a run\<close>

lemma InitializeConditions_first:
  "Conditions ss = [] \<Longrightarrow>
   statusOf (GetCondition (InitializeConditions now ss) SequenceConditionReady)
     = Some (aggregateStatus sCondSet (Conditions (InitializeConditions now ss)))"
  by (simp add: InitializeConditions_def Manage_InitializeConditions_def
      initializeMissing_aggregate happy_sCondSet dependents_sCondSet subConditions_def
      GetCondition_def Manage_GetCondition_def SequenceConditionReady_def statusOf_def
      findCondition_initializeMissing aggregateStatus_def IsTrue_def IsFalse_def
      del: initializeMissing.simps)

lemma InitializeConditions_later:
  assumes "statusOf (GetCondition ss SequenceConditionReady)
             = Some (aggregateStatus sCondSet (Conditions ss))"
  shows "statusOf (GetCondition (InitializeConditions now ss) SequenceConditionReady)
           = Some (aggregateStatus sCondSet (Conditions (InitializeConditions now ss)))"
proof -
  from assms obtain r where "findCondition ConditionReady (Conditions ss) = Some r"
    by (auto simp: statusOf_def GetCondition_def Manage_GetCondition_def
        SequenceConditionReady_def)
  then have "GetCondition (InitializeConditions now ss) SequenceConditionReady
      = GetCondition ss SequenceConditionReady"
    by (simp add: InitializeConditions_def Manage_InitializeConditions_def GetCondition_def
        Manage_GetCondition_def SequenceConditionReady_def findCondition_initializeMissing
        del: initializeMissing.simps)
  with assms show ?thesis
    by (simp add: InitializeConditions_def Manage_InitializeConditions_def
        initializeMissing_aggregate del: initializeMissing.simps)
qed

lemma applyOperation_marks:
  assumes "applyOperation now op ss = Inr ss'" and "op \<noteq> OpInitializeConditions"
  shows "readyIsAggregate sCondSet (Conditions ss')"
proof (cases op)
  case (OpPropagateSubscriptionStatuses subscriptions)
  with assms(1) show ?thesis using Propagate_readyIsAggregate(2) by simp
next
  case (OpPropagateChannelStatuses channels)
  with assms(1) show ?thesis using Propagate_readyIsAggregate(1) by simp
qed (use assms in
    \<open>auto simp: mark_sub_readyIsAggregate subConditions_def MarkChannelsNotReady_def MarkSubscriptionsNotReady_def
      MarkAddressableNotReady_def setAddress_def Let_def
      MarkOIDCIdentityCreatedSucceeded_def MarkOIDCIdentityCreatedSucceededWithReason_def
      MarkOIDCIdentityCreatedFailed_def MarkOIDCIdentityCreatedUnknown_def Manage_Mark_defs\<close>)

lemma applyOperation_aggregate:
  assumes "applyOperation now op ss = Inr ss'"
    and "Conditions ss = [] \<or> statusOf (GetCondition ss SequenceConditionReady)
           = Some (aggregateStatus sCondSet (Conditions ss))"
  shows "statusOf (GetCondition ss' SequenceConditionReady)
           = Some (aggregateStatus sCondSet (Conditions ss'))"
proof (cases "op = OpInitializeConditions")
  case True
  with assms show ?thesis
    using InitializeConditions_first [of ss now] InitializeConditions_later [of ss now] by auto
next
  case False
  with assms(1) show ?thesis
    using applyOperation_marks readyIsAggregate_status by blast
qed

lemma runOperations_aggregate:
  "Conditions ss = [] \<or> statusOf (GetCondition ss SequenceConditionReady)
           = Some (aggregateStatus sCondSet (Conditions ss))
   \<Longrightarrow> runOperations ops ss = Inr ss'
   \<Longrightarrow> Conditions ss' = [] \<or> statusOf (GetCondition ss' SequenceConditionReady)
           = Some (aggregateStatus sCondSet (Conditions ss'))"
proof (induction ops arbitrary: ss)
  case Nil
  then show ?case by simp
next
  case (Cons x ops)
  obtain now op where x: "x = (now, op)" by (cases x)
  with Cons.prems(2) obtain ss1 where 1: "applyOperation now op ss = Inr ss1"
    and 2: "runOperations ops ss1 = Inr ss'"
    by (auto split: sum.splits)
  have "statusOf (GetCondition ss1 SequenceConditionReady)
           = Some (aggregateStatus sCondSet (Conditions ss1))"
    using 1 Cons.prems(1) by (rule applyOperation_aggregate)
  then show ?case using 2 Cons.IH by blast
qed

lemma IsReady_iff_subconditions:
  assumes "Conditions ss = [] \<or> statusOf (GetCondition ss SequenceConditionReady)
           = Some (aggregateStatus sCondSet (Conditions ss))"
  shows "IsReady ss \<longleftrightarrow>
           IsTrue (GetCondition ss SequenceConditionChannelsReady)
         \<and> IsTrue (GetCondition ss SequenceConditionSubscriptionsReady)
         \<and> IsTrue (GetCondition ss SequenceConditionAddressable)
         \<and> IsTrue (GetCondition ss SequenceConditionOIDCIdentityCreated)"
proof (cases "Conditions ss = []")
  case True
  then show ?thesis using IsReady_no_conditions by blast
next
  case False
  with assms have "IsReady ss \<longleftrightarrow> aggregateStatus sCondSet (Conditions ss) = ConditionTrue"
    by (auto simp: IsReady_def Manage_IsHappy_def happy_sCondSet statusOf_def IsTrue_def
        GetCondition_def SequenceConditionReady_def)
  then show ?thesis
    by (simp add: aggregateStatus_True_iff dependents_sCondSet subConditions_def
        GetCondition_def Manage_GetCondition_def)
qed

section \<open>The marks a call makes\<close>

lemma subConditions_not_Ready:
  "t \<in> set subConditions \<Longrightarrow> t \<noteq> SequenceConditionReady"
  using conditionTypes_distinct(1-4)
  by (auto simp: subConditions_def SequenceConditionReady_def)

lemma one_mark:
  assumes "Type c \<in> set subConditions"
  shows "\<exists>marks. marks \<noteq> []
           \<and> list_all (\<lambda>c. Type c \<in> set subConditions \<and> Type c \<noteq> SequenceConditionReady) marks
           \<and> Conditions (markCondition sCondSet now c ss) = applyMarks now marks (Conditions ss)"
  using assms subConditions_not_Ready [OF assms]
  by (intro exI [of _ "[c]"]) (simp add: applyMarks_def markCondition_def)

lemma Conditions_setAddress:
  "\<exists>c. Type c = SequenceConditionAddressable
     \<and> Conditions (setAddress now address ss) = markConditions sCondSet now c (Conditions ss)"
proof (cases "case address of None \<Rightarrow> True | Some a \<Rightarrow> URL a = None")
  case True
  then show ?thesis
    by (intro exI [of _ "\<lparr>Type = SequenceConditionAddressable, Status = ConditionUnknown,
          Reason = ''emptyAddress'', Message = ''addressable is nil'',
          LastTransitionTime = now\<rparr>"])
      (simp add: setAddress_def Manage_Mark_defs markCondition_def)
next
  case False
  then show ?thesis
    by (intro exI [of _ "\<lparr>Type = SequenceConditionAddressable, Status = ConditionTrue,
          Reason = [], Message = [], LastTransitionTime = now\<rparr>"])
      (simp add: setAddress_def Manage_Mark_defs markCondition_def)
qed

lemma two_marks:
  assumes "Type c \<in> set subConditions"
  shows "\<exists>marks. marks \<noteq> []
           \<and> list_all (\<lambda>c. Type c \<in> set subConditions \<and> Type c \<noteq> SequenceConditionReady) marks
           \<and> Conditions (markCondition sCondSet now c
                 ((setAddress now address ss)\<lparr>ChannelStatuses := x\<rparr>))
               = applyMarks now marks (Conditions ss)"
proof -
  obtain a where a: "Type a = SequenceConditionAddressable"
    and "Conditions (setAddress now address ss) = markConditions sCondSet now a (Conditions ss)"
    using Conditions_setAddress by blast
  then have "Conditions (markCondition sCondSet now c
                 ((setAddress now address ss)\<lparr>ChannelStatuses := x\<rparr>))
               = applyMarks now [a, c] (Conditions ss)"
    by (simp add: applyMarks_def markCondition_def)
  moreover have "Type a \<in> set subConditions" using a by (simp add: subConditions_def)
  ultimately show ?thesis
    using assms subConditions_not_Ready
    by (intro exI [of _ "[a, c]"]) simp
qed

lemma applyOperation_marks_only:
  assumes "applyOperation now op ss = Inr ss'" and "op \<noteq> OpInitializeConditions"
  shows "\<exists>marks. marks \<noteq> []
           \<and> list_all (\<lambda>c. Type c \<in> set subConditions \<and> Type c \<noteq> SequenceConditionReady) marks
           \<and> Conditions ss' = applyMarks now marks (Conditions ss)"
proof (cases op)
  case OpInitializeConditions
  with assms(2) show ?thesis by simp
next
  case (OpPropagateSubscriptionStatuses subscriptions)
  with assms(1) obtain subs where "subscriptions = map Some subs"
    using PropagateSubscriptionStatuses_returns [of now subscriptions ss ss'] by auto
  with assms(1) OpPropagateSubscriptionStatuses
  have "ss' = (if subs \<noteq> [] \<and> list_all subscriptionReady subs
          then Manage_MarkTrue sCondSet now SequenceConditionSubscriptionsReady
                 (ss\<lparr>SubscriptionStatuses := map (subscriptionEntry now) subs\<rparr>)
          else MarkSubscriptionsNotReady now ''SubscriptionsNotReady''
                 ''Subscriptions are not ready yet, or there are none''
                 (ss\<lparr>SubscriptionStatuses := map (subscriptionEntry now) subs\<rparr>))"
    by (simp add: PropagateSubscriptionStatuses_map_Some del: map_eq_conv)
  then show ?thesis
    using one_mark [of "\<lparr>Type = SequenceConditionSubscriptionsReady, Status = ConditionTrue,
          Reason = [], Message = [], LastTransitionTime = now\<rparr>" now
        "ss\<lparr>SubscriptionStatuses := map (subscriptionEntry now) subs\<rparr>"]
      one_mark [of "\<lparr>Type = SequenceConditionSubscriptionsReady, Status = ConditionUnknown,
          Reason = ''SubscriptionsNotReady'',
          Message = ''Subscriptions are not ready yet, or there are none'',
          LastTransitionTime = now\<rparr>" now
        "ss\<lparr>SubscriptionStatuses := map (subscriptionEntry now) subs\<rparr>"]
    by (simp add: subConditions_def MarkSubscriptionsNotReady_def Manage_Mark_defs
        del: map_eq_conv split: if_splits)
next
  case (OpPropagateChannelStatuses channels)
  with assms(1) obtain chs where chs: "channels = map Some chs"
    using PropagateChannelStatuses_returns [of now channels ss ss'] by auto
  show ?thesis
  proof (cases chs)
    case Nil
    with assms(1) OpPropagateChannelStatuses chs
    have "ss' = MarkChannelsNotReady now ''ChannelsNotReady''
            ''Channels are not ready yet, or there are none'' (ss\<lparr>ChannelStatuses := []\<rparr>)"
      by (simp add: PropagateChannelStatuses_Nil)
    then show ?thesis
      using one_mark [of "\<lparr>Type = SequenceConditionChannelsReady, Status = ConditionUnknown,
          Reason = ''ChannelsNotReady'',
          Message = ''Channels are not ready yet, or there are none'',
          LastTransitionTime = now\<rparr>" now "ss\<lparr>ChannelStatuses := []\<rparr>"]
      by (simp add: subConditions_def MarkChannelsNotReady_def Manage_Mark_defs)
  next
    case (Cons c rest)
    with assms(1) OpPropagateChannelStatuses chs
    have "ss' = (if list_all channelReady (c # rest)
          then Manage_MarkTrue sCondSet now SequenceConditionChannelsReady
                 ((setAddress now (cStatusAddress c) ss)
                    \<lparr>ChannelStatuses := map (channelEntry now) (c # rest)\<rparr>)
          else MarkChannelsNotReady now ''ChannelsNotReady''
                 ''Channels are not ready yet, or there are none''
                 ((setAddress now (cStatusAddress c) ss)
                    \<lparr>ChannelStatuses := map (channelEntry now) (c # rest)\<rparr>))"
      using PropagateChannelStatuses_Cons [of now c rest ss] by simp
    then show ?thesis
      using two_marks [where c = "\<lparr>Type = SequenceConditionChannelsReady,
            Status = ConditionTrue, Reason = [], Message = [], LastTransitionTime = now\<rparr>"
          and now = now and address = "cStatusAddress c" and ss = ss
          and x = "map (channelEntry now) (c # rest)"]
        two_marks [where c = "\<lparr>Type = SequenceConditionChannelsReady,
            Status = ConditionUnknown, Reason = ''ChannelsNotReady'',
            Message = ''Channels are not ready yet, or there are none'',
            LastTransitionTime = now\<rparr>"
          and now = now and address = "cStatusAddress c" and ss = ss
          and x = "map (channelEntry now) (c # rest)"]
      by (simp add: subConditions_def MarkChannelsNotReady_def Manage_Mark_defs
          del: list.map list.pred_inject split: if_splits)
  qed
next
  case (OpMarkChannelsNotReady reason message)
  with assms(1) show ?thesis
    using one_mark [of "\<lparr>Type = SequenceConditionChannelsReady, Status = ConditionUnknown,
          Reason = reason, Message = message, LastTransitionTime = now\<rparr>" now ss]
    by (auto simp: subConditions_def MarkChannelsNotReady_def Manage_Mark_defs)
next
  case (OpMarkSubscriptionsNotReady reason message)
  with assms(1) show ?thesis
    using one_mark [of "\<lparr>Type = SequenceConditionSubscriptionsReady, Status = ConditionUnknown,
          Reason = reason, Message = message, LastTransitionTime = now\<rparr>" now ss]
    by (auto simp: subConditions_def MarkSubscriptionsNotReady_def Manage_Mark_defs)
next
  case (OpMarkAddressableNotReady reason message)
  with assms(1) show ?thesis
    using one_mark [of "\<lparr>Type = SequenceConditionAddressable, Status = ConditionUnknown,
          Reason = reason, Message = message, LastTransitionTime = now\<rparr>" now ss]
    by (auto simp: subConditions_def MarkAddressableNotReady_def Manage_Mark_defs)
next
  case (OpSetAddress address)
  obtain a where a: "Type a = SequenceConditionAddressable"
    and "Conditions (setAddress now address ss) = markConditions sCondSet now a (Conditions ss)"
    using Conditions_setAddress by blast
  with assms(1) OpSetAddress have "Conditions ss' = applyMarks now [a] (Conditions ss)"
    by (auto simp: applyMarks_def)
  moreover have "Type a \<in> set subConditions" using a by (simp add: subConditions_def)
  ultimately show ?thesis
    using subConditions_not_Ready by (intro exI [of _ "[a]"]) simp
next
  case OpMarkOIDCIdentityCreatedSucceeded
  with assms(1) show ?thesis
    using one_mark [of "\<lparr>Type = SequenceConditionOIDCIdentityCreated, Status = ConditionTrue,
          Reason = [], Message = [], LastTransitionTime = now\<rparr>" now ss]
    by (auto simp: subConditions_def MarkOIDCIdentityCreatedSucceeded_def Manage_Mark_defs)
next
  case (OpMarkOIDCIdentityCreatedSucceededWithReason reason message)
  with assms(1) show ?thesis
    using one_mark [of "\<lparr>Type = SequenceConditionOIDCIdentityCreated, Status = ConditionTrue,
          Reason = reason, Message = message, LastTransitionTime = now\<rparr>" now ss]
    by (auto simp: subConditions_def MarkOIDCIdentityCreatedSucceededWithReason_def
        Manage_Mark_defs)
next
  case (OpMarkOIDCIdentityCreatedFailed reason message)
  with assms(1) show ?thesis
    using one_mark [of "\<lparr>Type = SequenceConditionOIDCIdentityCreated, Status = ConditionFalse,
          Reason = reason, Message = message, LastTransitionTime = now\<rparr>" now ss]
    by (auto simp: subConditions_def MarkOIDCIdentityCreatedFailed_def Manage_Mark_defs)
next
  case (OpMarkOIDCIdentityCreatedUnknown reason message)
  with assms(1) show ?thesis
    using one_mark [of "\<lparr>Type = SequenceConditionOIDCIdentityCreated, Status = ConditionUnknown,
          Reason = reason, Message = message, LastTransitionTime = now\<rparr>" now ss]
    by (auto simp: subConditions_def MarkOIDCIdentityCreatedUnknown_def Manage_Mark_defs)
qed

lemma InitializeConditions_keeps_Ready:
  "GetCondition ss SequenceConditionReady \<noteq> None
    \<Longrightarrow> GetCondition (InitializeConditions now ss) SequenceConditionReady
          = GetCondition ss SequenceConditionReady"
  by (auto simp: InitializeConditions_def Manage_InitializeConditions_def GetCondition_def
      Manage_GetCondition_def findCondition_initializeMissing simp del: initializeMissing.simps)

lemma InitializeConditions_seeds_Ready:
  "GetCondition ss SequenceConditionReady = None
    \<Longrightarrow> statusOf (GetCondition (InitializeConditions now ss) SequenceConditionReady)
          = Some ConditionUnknown"
  by (simp add: InitializeConditions_def Manage_InitializeConditions_def GetCondition_def
      Manage_GetCondition_def findCondition_initializeMissing statusOf_def happy_sCondSet
      SequenceConditionReady_def del: initializeMissing.simps)

text \<open>A mark of \<open>Ready\<close> itself is a direct write: the primitive keeps what was written,
  whatever the sub-conditions are. Marked \<open>False\<close> on the zero record, \<open>Ready\<close> is \<open>False\<close>
  while the aggregate of the sub-conditions is \<open>Unknown\<close>.\<close>

lemma direct_mark_is_kept:
  "statusOf (GetCondition (Manage_MarkFalse sCondSet now SequenceConditionReady reason message ss)
      SequenceConditionReady) = Some ConditionFalse"
proof -
  let ?c = "\<lparr>Type = SequenceConditionReady, Status = ConditionFalse, Reason = reason,
             Message = message, LastTransitionTime = now\<rparr>"
  have "SequenceConditionReady \<notin> set (dependents sCondSet)"
    using happy_not_dependent_sCondSet by (simp add: happy_sCondSet SequenceConditionReady_def)
  then have "Conditions (Manage_MarkFalse sCondSet now SequenceConditionReady reason message ss)
      = setCondition now ?c (Conditions ss)"
    by (simp add: Manage_Mark_defs markCondition_def markConditions_def)
  then show ?thesis
    using findCondition_setCondition_same [of ?c now "Conditions ss"]
    by (auto simp: statusOf_def GetCondition_def Manage_GetCondition_def)
qed

lemma direct_mark_is_not_the_aggregate:
  "statusOf (GetCondition (Manage_MarkFalse sCondSet 1 SequenceConditionReady ''Lost'' ''gone''
        zeroSequenceStatus) SequenceConditionReady) = Some ConditionFalse
   \<and> aggregateStatus sCondSet (Conditions (Manage_MarkFalse sCondSet 1 SequenceConditionReady
        ''Lost'' ''gone'' zeroSequenceStatus)) = ConditionUnknown"
  by (simp add: evaluation_defs ConditionReady_def ConditionTrue_def ConditionFalse_def
      ConditionUnknown_def IsTrue_def IsFalse_def)

text \<open>C1. In every status record built from the zero record by calls of this file,
  \<open>IsReady\<close> holds exactly when \<open>ChannelsReady\<close>, \<open>SubscriptionsReady\<close>, \<open>Addressable\<close> and
  \<open>OIDCIdentityCreated\<close> all have status \<open>True\<close>, and the stored \<open>Ready\<close> condition, once
  there is one, carries the aggregate recomputed from the sub-conditions. Marking any one
  sub-condition \<open>Unknown\<close> or \<open>False\<close>, from any record, leaves \<open>IsReady\<close> false; the
  not-ready markers and the identity markers of the file are such marks. No call of the
  file writes \<open>Ready\<close> directly: from any record, the conditions after a call other than
  \<open>InitializeConditions\<close> are the conditions before it with marks of tracked
  sub-conditions applied, none of them a mark of \<open>Ready\<close>, so that \<open>Ready\<close> is written by
  the recomputation of the primitive alone; and \<open>InitializeConditions\<close> leaves a \<open>Ready\<close>
  condition that is there as it is, and where there is none the initialization of the
  primitive seeds one with status \<open>Unknown\<close>.\<close>

theorem ready_iff_all_subconditions_true:
  "(runOperations ops zeroSequenceStatus = Inr ss \<longrightarrow>
      (IsReady ss \<longleftrightarrow>
           IsTrue (GetCondition ss SequenceConditionChannelsReady)
         \<and> IsTrue (GetCondition ss SequenceConditionSubscriptionsReady)
         \<and> IsTrue (GetCondition ss SequenceConditionAddressable)
         \<and> IsTrue (GetCondition ss SequenceConditionOIDCIdentityCreated))
      \<and> (Conditions ss = [] \<or> statusOf (GetCondition ss SequenceConditionReady)
             = Some (aggregateStatus sCondSet (Conditions ss))))
   \<and> (t \<in> set subConditions \<longrightarrow>
        \<not> IsReady (Manage_MarkUnknown sCondSet now t reason message ss0)
        \<and> \<not> IsReady (Manage_MarkFalse sCondSet now t reason message ss0))
   \<and> \<not> IsReady (MarkChannelsNotReady now reason message ss0)
   \<and> \<not> IsReady (MarkSubscriptionsNotReady now reason message ss0)
   \<and> \<not> IsReady (MarkAddressableNotReady now reason message ss0)
   \<and> \<not> IsReady (MarkOIDCIdentityCreatedFailed now reason message ss0)
   \<and> \<not> IsReady (MarkOIDCIdentityCreatedUnknown now reason message ss0)
   \<and> (applyOperation now op pre = Inr post \<and> op \<noteq> OpInitializeConditions \<longrightarrow>
        (\<exists>marks. marks \<noteq> []
           \<and> list_all (\<lambda>c. Type c \<in> set subConditions \<and> Type c \<noteq> SequenceConditionReady) marks
           \<and> Conditions post = applyMarks now marks (Conditions pre)))
   \<and> (GetCondition pre SequenceConditionReady \<noteq> None \<longrightarrow>
        GetCondition (InitializeConditions now pre) SequenceConditionReady
          = GetCondition pre SequenceConditionReady)
   \<and> (GetCondition pre SequenceConditionReady = None \<longrightarrow>
        statusOf (GetCondition (InitializeConditions now pre) SequenceConditionReady)
          = Some ConditionUnknown)"
proof -
  have run: "runOperations ops zeroSequenceStatus = Inr ss \<longrightarrow>
      (IsReady ss \<longleftrightarrow>
           IsTrue (GetCondition ss SequenceConditionChannelsReady)
         \<and> IsTrue (GetCondition ss SequenceConditionSubscriptionsReady)
         \<and> IsTrue (GetCondition ss SequenceConditionAddressable)
         \<and> IsTrue (GetCondition ss SequenceConditionOIDCIdentityCreated))
      \<and> (Conditions ss = [] \<or> statusOf (GetCondition ss SequenceConditionReady)
             = Some (aggregateStatus sCondSet (Conditions ss)))"
  proof
    assume r: "runOperations ops zeroSequenceStatus = Inr ss"
    have "Conditions zeroSequenceStatus = []" by (simp add: zeroSequenceStatus_def)
    then have inv: "Conditions ss = [] \<or> statusOf (GetCondition ss SequenceConditionReady)
             = Some (aggregateStatus sCondSet (Conditions ss))"
      using runOperations_aggregate [OF _ r] by blast
    with IsReady_iff_subconditions [OF inv]
    show "(IsReady ss \<longleftrightarrow>
           IsTrue (GetCondition ss SequenceConditionChannelsReady)
         \<and> IsTrue (GetCondition ss SequenceConditionSubscriptionsReady)
         \<and> IsTrue (GetCondition ss SequenceConditionAddressable)
         \<and> IsTrue (GetCondition ss SequenceConditionOIDCIdentityCreated))
      \<and> (Conditions ss = [] \<or> statusOf (GetCondition ss SequenceConditionReady)
             = Some (aggregateStatus sCondSet (Conditions ss)))"
      by blast
  qed
  have mark: "\<not> IsReady (Manage_MarkUnknown sCondSet now u reason message ss0)
        \<and> \<not> IsReady (Manage_MarkFalse sCondSet now u reason message ss0)"
    if "u \<in> set subConditions" for u
    using that conditionStatuses_distinct
      not_ready_after_mark [of "\<lparr>Type = u, Status = ConditionUnknown, Reason = reason,
          Message = message, LastTransitionTime = now\<rparr>" now ss0]
      not_ready_after_mark [of "\<lparr>Type = u, Status = ConditionFalse, Reason = reason,
          Message = message, LastTransitionTime = now\<rparr>" now ss0]
    by (simp add: Manage_Mark_defs)
  have markers: "\<not> IsReady (MarkChannelsNotReady now reason message ss0)"
    "\<not> IsReady (MarkSubscriptionsNotReady now reason message ss0)"
    "\<not> IsReady (MarkAddressableNotReady now reason message ss0)"
    "\<not> IsReady (MarkOIDCIdentityCreatedFailed now reason message ss0)"
    "\<not> IsReady (MarkOIDCIdentityCreatedUnknown now reason message ss0)"
    using mark [of SequenceConditionChannelsReady] mark [of SequenceConditionSubscriptionsReady]
      mark [of SequenceConditionAddressable] mark [of SequenceConditionOIDCIdentityCreated]
    by (simp_all add: subConditions_def MarkChannelsNotReady_def MarkSubscriptionsNotReady_def
        MarkAddressableNotReady_def MarkOIDCIdentityCreatedFailed_def
        MarkOIDCIdentityCreatedUnknown_def)
  have calls: "applyOperation now op pre = Inr post \<and> op \<noteq> OpInitializeConditions \<longrightarrow>
        (\<exists>marks. marks \<noteq> []
           \<and> list_all (\<lambda>c. Type c \<in> set subConditions \<and> Type c \<noteq> SequenceConditionReady) marks
           \<and> Conditions post = applyMarks now marks (Conditions pre))"
    using applyOperation_marks_only [of now op pre post] by blast
  have init: "GetCondition pre SequenceConditionReady \<noteq> None \<longrightarrow>
        GetCondition (InitializeConditions now pre) SequenceConditionReady
          = GetCondition pre SequenceConditionReady"
    using InitializeConditions_keeps_Ready [of pre now] by blast
  have seed: "GetCondition pre SequenceConditionReady = None \<longrightarrow>
        statusOf (GetCondition (InitializeConditions now pre) SequenceConditionReady)
          = Some ConditionUnknown"
    using InitializeConditions_seeds_Ready [of pre now] by blast
  have markt: "t \<in> set subConditions \<longrightarrow>
        \<not> IsReady (Manage_MarkUnknown sCondSet now t reason message ss0)
        \<and> \<not> IsReady (Manage_MarkFalse sCondSet now t reason message ss0)"
    using mark [of t] by blast
  from run markt markers calls init seed show ?thesis
    by (intro conjI) assumption+
qed

theorem ready_iff_all_subconditions_true_witness:
  "\<exists>ss. runOperations
          [(1, OpPropagateChannelStatuses
                 [Some (sampleChannel ''c0'' [readyIsTrue] (Some \<lparr>URL = Some ''http://c0.default.svc''\<rparr>))]),
           (2, OpPropagateSubscriptionStatuses [Some (sampleSubscription ''s0'' [readyIsTrue])]),
           (3, OpMarkOIDCIdentityCreatedSucceeded)] zeroSequenceStatus = Inr ss
     \<and> IsReady ss
     \<and> \<not> IsReady (Manage_MarkFalse sCondSet 4 SequenceConditionChannelsReady ''Lost'' ''gone'' ss)
     \<and> (\<exists>marks. marks \<noteq> []
           \<and> list_all (\<lambda>c. Type c \<in> set subConditions \<and> Type c \<noteq> SequenceConditionReady) marks
           \<and> Conditions (MarkChannelsNotReady 4 ''Lost'' ''gone'' ss)
               = applyMarks 4 marks (Conditions ss))
     \<and> GetCondition (InitializeConditions 4 ss) SequenceConditionReady
          = GetCondition ss SequenceConditionReady
     \<and> statusOf (GetCondition (InitializeConditions 4 zeroSequenceStatus) SequenceConditionReady)
          = Some ConditionUnknown"
proof -
  let ?ops = "[(1, OpPropagateChannelStatuses
                 [Some (sampleChannel ''c0'' [readyIsTrue] (Some \<lparr>URL = Some ''http://c0.default.svc''\<rparr>))]),
           (2, OpPropagateSubscriptionStatuses [Some (sampleSubscription ''s0'' [readyIsTrue])]),
           (3, OpMarkOIDCIdentityCreatedSucceeded)]"
  have "\<exists>ss. runOperations ?ops zeroSequenceStatus = Inr ss
     \<and> IsTrue (GetCondition ss SequenceConditionChannelsReady)
     \<and> IsTrue (GetCondition ss SequenceConditionSubscriptionsReady)
     \<and> IsTrue (GetCondition ss SequenceConditionAddressable)
     \<and> IsTrue (GetCondition ss SequenceConditionOIDCIdentityCreated)
     \<and> GetCondition ss SequenceConditionReady \<noteq> None"
    by (simp add: evaluation_defs sample_defs)
  then obtain ss where r: "runOperations ?ops zeroSequenceStatus = Inr ss"
    and four: "IsTrue (GetCondition ss SequenceConditionChannelsReady)"
     "IsTrue (GetCondition ss SequenceConditionSubscriptionsReady)"
     "IsTrue (GetCondition ss SequenceConditionAddressable)"
     "IsTrue (GetCondition ss SequenceConditionOIDCIdentityCreated)"
    and there: "GetCondition ss SequenceConditionReady \<noteq> None"
    by blast
  have t: "SequenceConditionChannelsReady \<in> set subConditions"
    by (simp add: subConditions_def)
  have a: "applyOperation 4 (OpMarkChannelsNotReady ''Lost'' ''gone'') ss
      = Inr (MarkChannelsNotReady 4 ''Lost'' ''gone'' ss)
    \<and> OpMarkChannelsNotReady ''Lost'' ''gone'' \<noteq> OpInitializeConditions"
    by simp
  have none: "GetCondition zeroSequenceStatus SequenceConditionReady = None"
    by (simp add: GetCondition_def Manage_GetCondition_def zeroSequenceStatus_def)
  have seeded: "statusOf (GetCondition (InitializeConditions 4 zeroSequenceStatus)
      SequenceConditionReady) = Some ConditionUnknown"
    using ready_iff_all_subconditions_true [of ?ops ss SequenceConditionChannelsReady 4
        "''Lost''" "''gone''" ss "OpMarkChannelsNotReady ''Lost'' ''gone''" zeroSequenceStatus
        "MarkChannelsNotReady 4 ''Lost'' ''gone'' zeroSequenceStatus"] none
    by blast
  show ?thesis
    using ready_iff_all_subconditions_true [of ?ops ss SequenceConditionChannelsReady 4
        "''Lost''" "''gone''" ss "OpMarkChannelsNotReady ''Lost'' ''gone''" ss
        "MarkChannelsNotReady 4 ''Lost'' ''gone'' ss"] r four t a there seeded
    by blast
qed

end
